theory Spec2Isabelle
  imports Main "HOL-Library.Word"
begin

unbundle bit_operations_syntax

section \<open>Errors.hpp: error codes, the exception class and the Result types\<close>

datatype ErrorCode =
    SUCCESS
  | CRYPTO_ERROR | CryptoInitFailed | EncryptionFailed | DecryptionFailed
  | InvalidKey | InvalidIV
  | TIME_NOT_REACHED | TimeNotReached | InvalidTimeFormat | ClockManipulation
  | FILE_NOT_FOUND | FILE_ACCESS_ERROR | FileNotFound | FileAccessDenied
  | InvalidMetadata | CorruptedData
  | INVALID_POLICY | POLICY_VIOLATION | InvalidPolicy | PolicyViolation
  | AUDIT_LOG_ERROR | AuditLogCorrupted | HashChainBroken
  | INVALID_FORMAT | UNKNOWN_ERROR | InvalidArgument | InternalError | NotImplemented

text \<open>\<^verbatim>\<open>std::string to_string(ErrorCode code)\<close> of Errors.cpp.\<close>

fun to_string_ErrorCode :: "ErrorCode \<Rightarrow> string" where
  "to_string_ErrorCode SUCCESS = ''Success''"
| "to_string_ErrorCode CRYPTO_ERROR = ''Cryptographic operation failed''"
| "to_string_ErrorCode CryptoInitFailed = ''Cryptographic initialization failed''"
| "to_string_ErrorCode EncryptionFailed = ''Encryption operation failed''"
| "to_string_ErrorCode DecryptionFailed = ''Decryption operation failed''"
| "to_string_ErrorCode InvalidKey = ''Invalid cryptographic key''"
| "to_string_ErrorCode InvalidIV = ''Invalid initialization vector''"
| "to_string_ErrorCode TIME_NOT_REACHED = ''Unlock time has not been reached''"
| "to_string_ErrorCode TimeNotReached = ''Unlock time has not been reached''"
| "to_string_ErrorCode InvalidTimeFormat = ''Invalid time format''"
| "to_string_ErrorCode ClockManipulation = ''Clock manipulation detected''"
| "to_string_ErrorCode FILE_NOT_FOUND = ''File not found''"
| "to_string_ErrorCode FILE_ACCESS_ERROR = ''File access error''"
| "to_string_ErrorCode FileNotFound = ''File not found''"
| "to_string_ErrorCode FileAccessDenied = ''File access denied''"
| "to_string_ErrorCode InvalidMetadata = ''Invalid metadata''"
| "to_string_ErrorCode CorruptedData = ''Data corruption detected''"
| "to_string_ErrorCode INVALID_POLICY = ''Invalid policy configuration''"
| "to_string_ErrorCode POLICY_VIOLATION = ''Policy violation''"
| "to_string_ErrorCode InvalidPolicy = ''Invalid policy configuration''"
| "to_string_ErrorCode PolicyViolation = ''Policy violation''"
| "to_string_ErrorCode AUDIT_LOG_ERROR = ''Audit log error''"
| "to_string_ErrorCode AuditLogCorrupted = ''Audit log corrupted''"
| "to_string_ErrorCode HashChainBroken = ''Hash chain integrity broken''"
| "to_string_ErrorCode INVALID_FORMAT = ''Invalid file format''"
| "to_string_ErrorCode UNKNOWN_ERROR = ''Unknown error''"
| "to_string_ErrorCode InvalidArgument = ''Invalid argument''"
| "to_string_ErrorCode InternalError = ''Internal error''"
| "to_string_ErrorCode NotImplemented = ''Feature not implemented''"

text \<open>
  What a call can throw. \<open>TCFSException\<close> is the class of Errors.hpp with its two
  fields \<open>code_\<close> and \<open>message_\<close>; the two \<open>std\<close> exceptions are the ones the
  standard conversions \<^verbatim>\<open>std::stoi\<close> and \<^verbatim>\<open>std::stoul\<close> throw, carrying their
  \<^verbatim>\<open>what()\<close> text. \<open>undefined_behaviour\<close> marks an execution the C++ standard leaves
  undefined (a remainder by zero), so that no theorem silently speaks about it.
\<close>

datatype exn =
    TCFSException ErrorCode string
  | std_invalid_argument string
  | std_out_of_range string
  | undefined_behaviour

text \<open>\<^verbatim>\<open>TCFSException::what()\<close>: the code's description, then \<open>": " + message_\<close> when
  the message is not empty.\<close>

fun what :: "exn \<Rightarrow> string" where
  "what (TCFSException code message) =
     to_string_ErrorCode code @ (if message \<noteq> [] then '': '' @ message else [])"
| "what (std_invalid_argument s) = s"
| "what (std_out_of_range s) = s"
| "what undefined_behaviour = []"

text \<open>
  \<^verbatim>\<open>template<typename T> class Result\<close>: the flag \<open>has_value_\<close> selects the member of
  the union \<open>{value_, error_}\<close>; \<open>error_message_\<close> accompanies the error (the
  one-argument error constructor leaves it empty).
\<close>

datatype 'a Result = Value 'a | Error ErrorCode string

fun has_value :: "'a Result \<Rightarrow> bool" where
  "has_value (Value v) = True"
| "has_value (Error c m) = False"

fun getErrorCode :: "'a Result \<Rightarrow> ErrorCode" where
  "getErrorCode (Value v) = SUCCESS"
| "getErrorCode (Error c m) = c"

fun getErrorMessage :: "'a Result \<Rightarrow> string" where
  "getErrorMessage (Value v) = []"
| "getErrorMessage (Error c m) = m"

text \<open>\<^verbatim>\<open>T& value()\<close>: throws \<open>TCFSException(error_, error_message_)\<close> when
  \<open>!has_value_\<close>, returns \<open>value_\<close> otherwise. The outcome is a sum: \<open>Inl\<close> the
  exception thrown, \<open>Inr\<close> the value returned.\<close>

fun value_Result :: "'a Result \<Rightarrow> exn + 'a" where
  "value_Result (Error c m) = Inl (TCFSException c m)"
| "value_Result (Value v) = Inr v"

text \<open>\<^verbatim>\<open>template<> class Result<void>\<close>, the specialisation without a payload.\<close>

datatype Result_void = VoidValue | VoidError ErrorCode string

fun has_value_void :: "Result_void \<Rightarrow> bool" where
  "has_value_void VoidValue = True"
| "has_value_void (VoidError c m) = False"

fun getErrorCode_void :: "Result_void \<Rightarrow> ErrorCode" where
  "getErrorCode_void VoidValue = SUCCESS"
| "getErrorCode_void (VoidError c m) = c"

fun getErrorMessage_void :: "Result_void \<Rightarrow> string" where
  "getErrorMessage_void VoidValue = []"
| "getErrorMessage_void (VoidError c m) = m"

fun value_Result_void :: "Result_void \<Rightarrow> exn + unit" where
  "value_Result_void (VoidError c m) = Inl (TCFSException c m)"
| "value_Result_void VoidValue = Inr ()"

section \<open>Character and number conversions of the C++ standard library\<close>

text \<open>
  Strings are byte strings (\<^verbatim>\<open>std::string\<close>); the character classes are those of the
  "C" locale, which \<^verbatim>\<open>std::regex\<close>, \<^verbatim>\<open>strtol\<close> and \<^verbatim>\<open>strtoul\<close> consult.
\<close>

definition is_digit :: "char \<Rightarrow> bool" where
  "is_digit c = (48 \<le> (of_char c :: nat) \<and> (of_char c :: nat) \<le> 57)"

definition isspace :: "char \<Rightarrow> bool" where
  "isspace c = ((of_char c :: nat) = 32 \<or> (9 \<le> (of_char c :: nat) \<and> (of_char c :: nat) \<le> 13))"

definition digit_val :: "char \<Rightarrow> nat" where
  "digit_val c = of_char c - 48"

definition digit_char :: "nat \<Rightarrow> char" where
  "digit_char n = char_of (48 + n)"

text \<open>Decimal output of a non-negative number, most significant digit first, no padding.\<close>

fun show_nat :: "nat \<Rightarrow> string" where
  "show_nat n = (if n < 10 then [digit_char n] else show_nat (n div 10) @ [digit_char (n mod 10)])"

declare show_nat.simps [simp del]

definition show_int :: "int \<Rightarrow> string" where
  "show_int i = (if i < 0 then CHR ''-'' # show_nat (nat (- i)) else show_nat (nat i))"

text \<open>The value of a run of decimal digits, as \<^verbatim>\<open>strtol\<close> accumulates it.\<close>

definition decimal :: "string \<Rightarrow> int" where
  "decimal ds = foldl (\<lambda>a c. 10 * a + int (digit_val c)) 0 ds"

text \<open>
  \<^verbatim>\<open>std::stoi(str)\<close>: \<^verbatim>\<open>strtol\<close> in base 10 skips leading white space, reads an optional
  sign and the longest run of digits; \<^verbatim>\<open>stoi\<close> throws \<^verbatim>\<open>std::invalid_argument\<close> when no
  digit was read and \<^verbatim>\<open>std::out_of_range\<close> when the value does not fit an \<^verbatim>\<open>int\<close>.
\<close>

definition stoi :: "string \<Rightarrow> exn + int" where
  "stoi str =
     (let s1 = dropWhile isspace str;
          neg = (s1 \<noteq> [] \<and> hd s1 = CHR ''-'');
          s2 = (if s1 \<noteq> [] \<and> (hd s1 = CHR ''-'' \<or> hd s1 = CHR ''+'') then tl s1 else s1);
          ds = takeWhile is_digit s2;
          v = (if neg then - decimal ds else decimal ds)
      in if ds = [] then Inl (std_invalid_argument ''stoi'')
         else if v < - (2 ^ 31) \<or> 2 ^ 31 - 1 < v then Inl (std_out_of_range ''stoi'')
         else Inr v)"

section \<open>Calendar functions of the C library: timegm and gmtime\<close>

text \<open>\<^verbatim>\<open>struct tm\<close>, the fields that \<open>parse_rfc3339\<close> sets and \<open>format_rfc3339\<close> prints.\<close>

record tm =
  tm_year :: int
  tm_mon :: int
  tm_mday :: int
  tm_hour :: int
  tm_min :: int
  tm_sec :: int

text \<open>
  Days between 1970-01-01 and the given date of the proleptic Gregorian calendar, for a
  month in 1..12. The count is linear in the day of the month, so a day beyond the end of
  its month runs over into the next month, as \<^verbatim>\<open>timegm\<close> normalises it. Years are
  counted from 1 March (\<open>mp\<close> is the number of months since March) in eras of 400 years
  (146097 days).
\<close>

definition days_from_civil :: "int \<Rightarrow> int \<Rightarrow> int \<Rightarrow> int" where
  "days_from_civil y m d =
     (let y' = (if m \<le> 2 then y - 1 else y);
          era = y' div 400;
          yoe = y' mod 400;
          mp = (if 2 < m then m - 3 else m + 9);
          doy = (153 * mp + 2) div 5 + d - 1;
          doe = yoe * 365 + yoe div 4 - yoe div 100 + doy
      in era * 146097 + doe - 719468)"

text \<open>The date of a day count: era, century of the era (at most 3), four-year cycle of
  the century, year of the cycle (at most 3), then month and day from the day of the
  March-based year.\<close>

definition civil_from_days :: "int \<Rightarrow> int \<times> int \<times> int" where
  "civil_from_days z =
     (let z' = z + 719468;
          era = z' div 146097;
          doe = z' mod 146097;
          c = min 3 (doe div 36524);
          r1 = doe - 36524 * c;
          q = r1 div 1461;
          r2 = r1 - 1461 * q;
          a = min 3 (r2 div 365);
          doy = r2 - 365 * a;
          y' = 400 * era + 100 * c + 4 * q + a;
          mp = (5 * doy + 2) div 153;
          d = doy - (153 * mp + 2) div 5 + 1;
          m = (if mp < 10 then mp + 3 else mp - 9)
      in (if m \<le> 2 then y' + 1 else y', m, d))"

text \<open>\<^verbatim>\<open>timegm\<close>: seconds since the epoch of a broken-down UTC time (\<open>time_t\<close> has 64
  bits, which no four-digit year exhausts).\<close>

definition timegm :: "tm \<Rightarrow> int" where
  "timegm t =
     days_from_civil (tm_year t + 1900) (tm_mon t + 1) (tm_mday t) * 86400
       + tm_hour t * 3600 + tm_min t * 60 + tm_sec t"

text \<open>\<^verbatim>\<open>gmtime\<close>: the broken-down UTC time of a number of seconds since the epoch; days
  and the second of the day by flooring division.\<close>

definition gmtime :: "int \<Rightarrow> tm" where
  "gmtime t =
     (let days = t div 86400;
          rem = t mod 86400;
          ymd = civil_from_days days
      in \<lparr> tm_year = fst ymd - 1900, tm_mon = fst (snd ymd) - 1, tm_mday = snd (snd ymd),
           tm_hour = rem div 3600, tm_min = (rem mod 3600) div 60, tm_sec = rem mod 60 \<rparr>)"

section \<open>Policy.hpp and Policy.cpp\<close>

datatype CryptoAlgorithm = AES_256_GCM

datatype KDFType = PBKDF2 | Argon2id

text \<open>
  \<open>TimePoint\<close> is \<^verbatim>\<open>std::chrono::system_clock::time_point\<close>: with the GNU C++
  library on Linux, a signed 64-bit count of nanoseconds since the epoch. It is modelled
  by the integer it denotes; where the C++ arithmetic can leave the 64-bit range the
  two's-complement wrap-around is written out with \<open>wrap64\<close> (the standard calls that
  overflow undefined; the wrap is what the hardware does). \<open>in_int64\<close> says that an
  integer is a value of the type.
\<close>

type_synonym TimePoint = int

definition wrap64 :: "int \<Rightarrow> int" where
  "wrap64 x = (x + 2 ^ 63) mod 2 ^ 64 - 2 ^ 63"

definition in_int64 :: "int \<Rightarrow> bool" where
  "in_int64 x = (- (2 ^ 63) \<le> x \<and> x < 2 ^ 63)"

record Policy =
  unlock_at :: TimePoint
  owner :: string
  label :: string
  "notes" :: string
  grace_seconds :: "32 word"
  algorithm :: CryptoAlgorithm
  kdf :: KDFType

text \<open>\<^verbatim>\<open>Policy() = default\<close> with the member initialisers of Policy.hpp.\<close>

definition Policy_default :: Policy where
  "Policy_default =
     \<lparr> unlock_at = 0, owner = [], label = [], notes = [], grace_seconds = 0,
       algorithm = AES_256_GCM, kdf = PBKDF2 \<rparr>"

text \<open>The setters of Policy.hpp; \<open>set_unlock_time\<close> is the overload that takes a time
  point.\<close>

definition set_unlock_time :: "TimePoint \<Rightarrow> Policy \<Rightarrow> Policy" where
  "set_unlock_time t p = p\<lparr>unlock_at := t\<rparr>"

definition set_owner :: "string \<Rightarrow> Policy \<Rightarrow> Policy" where
  "set_owner s p = p\<lparr>owner := s\<rparr>"

definition set_label :: "string \<Rightarrow> Policy \<Rightarrow> Policy" where
  "set_label s p = p\<lparr>label := s\<rparr>"

definition set_notes :: "string \<Rightarrow> Policy \<Rightarrow> Policy" where
  "set_notes s p = p\<lparr>notes := s\<rparr>"

definition set_grace_seconds :: "32 word \<Rightarrow> Policy \<Rightarrow> Policy" where
  "set_grace_seconds g p = p\<lparr>grace_seconds := g\<rparr>"

definition set_algorithm :: "CryptoAlgorithm \<Rightarrow> Policy \<Rightarrow> Policy" where
  "set_algorithm a p = p\<lparr>algorithm := a\<rparr>"

definition set_kdf :: "KDFType \<Rightarrow> Policy \<Rightarrow> Policy" where
  "set_kdf k p = p\<lparr>kdf := k\<rparr>"

subsection \<open>The namespace \<open>time_utils\<close>\<close>

text \<open>
  The pattern of \<open>rfc3339_regex\<close>, \<^verbatim>\<open>(\d{4})-(\d{2})-(\d{2})T(\d{2}):(\d{2}):(\d{2})Z\<close>,
  is a sequence of single-character atoms; \<^verbatim>\<open>std::regex_match\<close> succeeds when the
  whole string matches the whole pattern.
\<close>

datatype regex_atom = Digit | Lit char

fun atom_matches :: "regex_atom \<Rightarrow> char \<Rightarrow> bool" where
  "atom_matches Digit c = is_digit c"
| "atom_matches (Lit l) c = (c = l)"

fun regex_match :: "regex_atom list \<Rightarrow> string \<Rightarrow> bool" where
  "regex_match [] [] = True"
| "regex_match (a # as) (c # cs) = (atom_matches a c \<and> regex_match as cs)"
| "regex_match [] (c # cs) = False"
| "regex_match (a # as) [] = False"

definition rfc3339_regex :: "regex_atom list" where
  "rfc3339_regex =
     [Digit, Digit, Digit, Digit, Lit CHR ''-'', Digit, Digit, Lit CHR ''-'', Digit, Digit,
      Lit CHR ''T'', Digit, Digit, Lit CHR '':'', Digit, Digit, Lit CHR '':'', Digit, Digit,
      Lit CHR ''Z'']"

text \<open>The text of a capture group: \<open>len\<close> characters from offset \<open>pos\<close>.\<close>

definition sub_match :: "string \<Rightarrow> nat \<Rightarrow> nat \<Rightarrow> string" where
  "sub_match s pos len = take len (drop pos s)"

text \<open>\<^verbatim>\<open>system_clock::from_time_t\<close>: seconds to nanoseconds, in 64 bits.\<close>

definition from_time_t :: "int \<Rightarrow> TimePoint" where
  "from_time_t s = wrap64 (s * 1000000000)"

text \<open>\<^verbatim>\<open>system_clock::to_time_t\<close>: a \<^verbatim>\<open>duration_cast\<close> to seconds, which truncates
  towards zero.\<close>

definition to_time_t :: "TimePoint \<Rightarrow> int" where
  "to_time_t t = sgn t * (\<bar>t\<bar> div 1000000000)"

text \<open>The part of \<open>parse_rfc3339\<close> after the six conversions: range check, \<open>timegm\<close>,
  the test for \<open>-1\<close> and the conversion to a time point.\<close>

definition parse_fields :: "int \<Rightarrow> int \<Rightarrow> int \<Rightarrow> int \<Rightarrow> int \<Rightarrow> int \<Rightarrow> TimePoint Result" where
  "parse_fields year month day hour minute second =
     (if month < 1 \<or> 12 < month \<or> day < 1 \<or> 31 < day \<or>
         hour < 0 \<or> 23 < hour \<or> minute < 0 \<or> 59 < minute \<or>
         second < 0 \<or> 59 < second
      then Error InvalidTimeFormat ''Invalid date/time values''
      else
        let time_t_val = timegm \<lparr> tm_year = year - 1900, tm_mon = month - 1, tm_mday = day,
                                  tm_hour = hour, tm_min = minute, tm_sec = second \<rparr>
        in if time_t_val = - 1
           then Error InvalidTimeFormat ''Failed to convert to time_t''
           else Value (from_time_t time_t_val))"

text \<open>The six \<^verbatim>\<open>std::stoi\<close> calls in the source's order; the first one that throws
  decides the exception the \<^verbatim>\<open>catch\<close> clause sees.\<close>

definition parse_rfc3339 :: "string \<Rightarrow> TimePoint Result" where
  "parse_rfc3339 timestamp =
     (if \<not> regex_match rfc3339_regex timestamp
      then Error InvalidTimeFormat ''Invalid RFC3339 format''
      else
        case stoi (sub_match timestamp 0 4) of
          Inl e \<Rightarrow> Error InvalidTimeFormat (''Parsing error: '' @ what e)
        | Inr year \<Rightarrow>
        case stoi (sub_match timestamp 5 2) of
          Inl e \<Rightarrow> Error InvalidTimeFormat (''Parsing error: '' @ what e)
        | Inr month \<Rightarrow>
        case stoi (sub_match timestamp 8 2) of
          Inl e \<Rightarrow> Error InvalidTimeFormat (''Parsing error: '' @ what e)
        | Inr day \<Rightarrow>
        case stoi (sub_match timestamp 11 2) of
          Inl e \<Rightarrow> Error InvalidTimeFormat (''Parsing error: '' @ what e)
        | Inr hour \<Rightarrow>
        case stoi (sub_match timestamp 14 2) of
          Inl e \<Rightarrow> Error InvalidTimeFormat (''Parsing error: '' @ what e)
        | Inr minute \<Rightarrow>
        case stoi (sub_match timestamp 17 2) of
          Inl e \<Rightarrow> Error InvalidTimeFormat (''Parsing error: '' @ what e)
        | Inr second \<Rightarrow> parse_fields year month day hour minute second)"

text \<open>A number printed by \<^verbatim>\<open>%m\<close>, \<^verbatim>\<open>%d\<close>, \<^verbatim>\<open>%H\<close>, \<^verbatim>\<open>%M\<close> or \<^verbatim>\<open>%S\<close>: padded with
  zeros to two characters.\<close>

definition pad2 :: "int \<Rightarrow> string" where
  "pad2 n = (let s = show_int n in replicate (2 - length s) (CHR ''0'') @ s)"

text \<open>\<^verbatim>\<open>std::put_time(utc_tm, "%Y-%m-%dT%H:%M:%SZ")\<close>; \<^verbatim>\<open>%Y\<close> prints the year as it is.\<close>

definition put_time :: "tm \<Rightarrow> string" where
  "put_time t =
     show_int (tm_year t + 1900) @ ''-'' @ pad2 (tm_mon t + 1) @ ''-'' @ pad2 (tm_mday t)
       @ ''T'' @ pad2 (tm_hour t) @ '':'' @ pad2 (tm_min t) @ '':'' @ pad2 (tm_sec t) @ ''Z''"

definition format_rfc3339 :: "TimePoint \<Rightarrow> string" where
  "format_rfc3339 time = put_time (gmtime (to_time_t time))"

subsection \<open>Policy member functions\<close>

text \<open>
  The wall clock that \<open>time_utils::now()\<close> reads is a parameter \<open>now\<close> of every function
  that calls it.
\<close>

text \<open>\<^verbatim>\<open>void Policy::set_unlock_time(const std::string&)\<close>, the overload that takes
  the text of a timestamp: it throws on a parse error.\<close>

definition set_unlock_time_rfc3339 :: "string \<Rightarrow> Policy \<Rightarrow> exn + Policy" where
  "set_unlock_time_rfc3339 rfc3339_time p =
     (case parse_rfc3339 rfc3339_time of
        Error c m \<Rightarrow> Inl (TCFSException c m)
      | Value t \<Rightarrow> Inr (set_unlock_time t p))"

definition unlock_time_rfc3339 :: "Policy \<Rightarrow> string" where
  "unlock_time_rfc3339 p = format_rfc3339 (unlock_at p)"

text \<open>\<^verbatim>\<open>now >= (unlock_at_ - grace_duration)\<close>: the grace period, a number of seconds, is
  converted to the clock's nanoseconds (at most \<open>(2^32 - 1) * 10^9\<close>, which fits) and
  subtracted in 64 bits.\<close>

definition is_unlock_time_reached :: "TimePoint \<Rightarrow> Policy \<Rightarrow> bool" where
  "is_unlock_time_reached now p =
     (let grace_duration = uint (grace_seconds p) * 1000000000
      in wrap64 (unlock_at p - grace_duration) \<le> now)"

definition validate :: "TimePoint \<Rightarrow> Policy \<Rightarrow> Result_void" where
  "validate now p =
     (if owner p = [] then VoidError InvalidPolicy ''Owner cannot be empty''
      else if unlock_at p = 0 then VoidError InvalidPolicy ''Unlock time must be set''
      else if unlock_at p \<le> now then VoidError InvalidPolicy ''Unlock time must be in the future''
      else VoidValue)"

fun to_string_CryptoAlgorithm :: "CryptoAlgorithm \<Rightarrow> string" where
  "to_string_CryptoAlgorithm AES_256_GCM = ''AES-256-GCM''"

fun to_string_KDFType :: "KDFType \<Rightarrow> string" where
  "to_string_KDFType PBKDF2 = ''pbkdf2''"
| "to_string_KDFType Argon2id = ''argon2id''"

definition crypto_algorithm_from_string :: "string \<Rightarrow> CryptoAlgorithm Result" where
  "crypto_algorithm_from_string str =
     (if str = ''AES-256-GCM'' then Value AES_256_GCM
      else Error InvalidArgument (''Unknown crypto algorithm: '' @ str))"

definition kdf_from_string :: "string \<Rightarrow> KDFType Result" where
  "kdf_from_string str =
     (if str = ''pbkdf2'' then Value PBKDF2
      else if str = ''argon2id'' then Value Argon2id
      else Error InvalidArgument (''Unknown KDF type: '' @ str))"

subsection \<open>JSON documents and the (de)serialisation of a Policy\<close>

text \<open>
  The value type of the JSON library: objects are finite maps from keys to values, kept
  as association lists read with \<open>map_of\<close>; an unsigned number is a 64-bit word; a
  floating-point number is kept as its 64 bits.
\<close>

datatype json =
    JNull
  | JBool bool
  | JString string
  | JUnsigned "64 word"
  | JInteger "64 word"
  | JFloat "64 word"
  | JArray "json list"
  | JObject "(string \<times> json) list"

fun contains :: "json \<Rightarrow> string \<Rightarrow> bool" where
  "contains (JObject kvs) k = (map_of kvs k \<noteq> None)"
| "contains j k = False"

text \<open>\<^verbatim>\<open>json[key]\<close> on a constant document; the source reads it only after
  \<open>contains\<close>.\<close>

fun at_key :: "json \<Rightarrow> string \<Rightarrow> json" where
  "at_key (JObject kvs) k = (case map_of kvs k of Some v \<Rightarrow> v | None \<Rightarrow> JNull)"
| "at_key j k = JNull"

fun is_string :: "json \<Rightarrow> bool" where
  "is_string (JString s) = True"
| "is_string j = False"

fun is_number_unsigned :: "json \<Rightarrow> bool" where
  "is_number_unsigned (JUnsigned n) = True"
| "is_number_unsigned j = False"

text \<open>\<^verbatim>\<open>get<std::string>()\<close> and \<^verbatim>\<open>get<uint32_t>()\<close>, which the source calls only after
  the matching type test; the latter is a cast of the stored 64-bit number.\<close>

fun get_string :: "json \<Rightarrow> string" where
  "get_string (JString s) = s"
| "get_string j = []"

fun get_uint32 :: "json \<Rightarrow> 32 word" where
  "get_uint32 (JUnsigned n) = ucast n"
| "get_uint32 j = 0"

definition to_json :: "Policy \<Rightarrow> json" where
  "to_json p =
     JObject
       [(''unlock_at'', JString (unlock_time_rfc3339 p)),
        (''owner'', JString (owner p)),
        (''label'', JString (label p)),
        (''notes'', JString (notes p)),
        (''grace_seconds'', JUnsigned (ucast (grace_seconds p))),
        (''algorithm'', JString (to_string_CryptoAlgorithm (algorithm p))),
        (''kdf'', JString (to_string_KDFType (kdf p)))]"

text \<open>The optional fields of \<open>from_json\<close>, each one a guarded setter call.\<close>

definition read_owner :: "json \<Rightarrow> Policy \<Rightarrow> Policy" where
  "read_owner j p =
     (if contains j ''owner'' \<and> is_string (at_key j ''owner'')
      then set_owner (get_string (at_key j ''owner'')) p else p)"

definition read_label :: "json \<Rightarrow> Policy \<Rightarrow> Policy" where
  "read_label j p =
     (if contains j ''label'' \<and> is_string (at_key j ''label'')
      then set_label (get_string (at_key j ''label'')) p else p)"

definition read_notes :: "json \<Rightarrow> Policy \<Rightarrow> Policy" where
  "read_notes j p =
     (if contains j ''notes'' \<and> is_string (at_key j ''notes'')
      then set_notes (get_string (at_key j ''notes'')) p else p)"

definition read_grace_seconds :: "json \<Rightarrow> Policy \<Rightarrow> Policy" where
  "read_grace_seconds j p =
     (if contains j ''grace_seconds'' \<and> is_number_unsigned (at_key j ''grace_seconds'')
      then set_grace_seconds (get_uint32 (at_key j ''grace_seconds'')) p else p)"

definition read_algorithm :: "json \<Rightarrow> Policy \<Rightarrow> Policy" where
  "read_algorithm j p =
     (if contains j ''algorithm'' \<and> is_string (at_key j ''algorithm'')
      then (case crypto_algorithm_from_string (get_string (at_key j ''algorithm'')) of
              Value a \<Rightarrow> set_algorithm a p
            | Error c m \<Rightarrow> p)
      else p)"

definition read_kdf :: "json \<Rightarrow> Policy \<Rightarrow> Policy" where
  "read_kdf j p =
     (if contains j ''kdf'' \<and> is_string (at_key j ''kdf'')
      then (case kdf_from_string (get_string (at_key j ''kdf'')) of
              Value k \<Rightarrow> set_kdf k p
            | Error c m \<Rightarrow> p)
      else p)"

text \<open>
  \<^verbatim>\<open>static Result<Policy> Policy::from_json(const nlohmann::json&)\<close>, the only
  deserialiser that Policy.hpp declares and Policy.cpp defines. The \<^verbatim>\<open>try\<close> block can
  be left by the exception of \<open>set_unlock_time\<close> alone, which the \<^verbatim>\<open>catch\<close> clause
  turns into an \<open>InvalidPolicy\<close> result; \<open>validate\<close> always runs before a policy is
  returned.
\<close>

definition from_json :: "TimePoint \<Rightarrow> json \<Rightarrow> Policy Result" where
  "from_json now j =
     (if \<not> contains j ''unlock_at'' \<or> \<not> is_string (at_key j ''unlock_at'')
      then Error InvalidPolicy ''Missing or invalid unlock_at field''
      else
        case set_unlock_time_rfc3339 (get_string (at_key j ''unlock_at'')) Policy_default of
          Inl e \<Rightarrow> Error InvalidPolicy (''JSON parsing error: '' @ what e)
        | Inr p1 \<Rightarrow>
            let policy = read_kdf j (read_algorithm j (read_grace_seconds j
                           (read_notes j (read_label j (read_owner j p1)))))
            in case validate now policy of
                 VoidError c m \<Rightarrow> Error c m
               | VoidValue \<Rightarrow> Value policy)"

section \<open>CryptoProvider.hpp and the MockCryptoProvider of OpenSSLCryptoProvider.cpp\<close>

type_synonym byte = "8 word"

text \<open>
  \<open>MockCryptoProvider\<close> is the provider that \<open>createCryptoProvider\<close> returns in a
  build without OpenSSL; the other provider hands every operation to that library.
  \<open>CryptoKey\<close> is a wrapper of its \<open>data\<close> vector, which stands for it here;
  \<open>CryptoIV\<close> and \<open>AuthTag\<close> are byte vectors.
\<close>

type_synonym CryptoKey = "byte list"

record EncryptedData =
  ciphertext :: "byte list"
  iv :: "byte list"
  tag :: "byte list"

text \<open>
  The loop shared by \<open>encrypt\<close> and \<open>decrypt\<close>:
  \<^verbatim>\<open>buf[i] ^= key.data[i % key.data.size()]; buf[i] ^= iv[i % iv.size()];\<close>
  for every index of the buffer.
\<close>

definition xor_keystream :: "byte list \<Rightarrow> CryptoKey \<Rightarrow> byte list \<Rightarrow> byte list" where
  "xor_keystream buf key ivec =
     map (\<lambda>i. buf ! i XOR key ! (i mod length key) XOR ivec ! (i mod length ivec))
         [0..<length buf]"

text \<open>The tag loop: sixteen zero bytes, then \<^verbatim>\<open>tag[i % 16] ^= key.data[i]\<close> for every
  index of the key.\<close>

definition mock_tag :: "CryptoKey \<Rightarrow> byte list" where
  "mock_tag key =
     fold (\<lambda>i t. t[i mod 16 := t ! (i mod 16) XOR key ! i]) [0..<length key] (replicate 16 0)"

text \<open>The tag byte at position \<open>j\<close> after the first \<open>n\<close> rounds of the tag loop of a
  key with bytes \<open>f 0, f 1, ...\<close>: the exclusive or of the bytes whose index is \<open>j\<close>
  modulo 16. It describes the loop in the proofs.\<close>

fun xor_fold :: "(nat \<Rightarrow> byte) \<Rightarrow> nat \<Rightarrow> nat \<Rightarrow> byte" where
  "xor_fold f 0 j = 0"
| "xor_fold f (Suc n) j = xor_fold f n j XOR (if n mod 16 = j then f n else 0)"

text \<open>
  \<open>MockCryptoProvider::encrypt\<close>. The result's \<open>iv\<close> member is never assigned and stays
  empty. With a non-empty plaintext and an empty key or IV the index expression divides
  by zero.
\<close>

definition encrypt :: "byte list \<Rightarrow> CryptoKey \<Rightarrow> byte list \<Rightarrow> exn + EncryptedData" where
  "encrypt plaintext key ivec =
     (if plaintext \<noteq> [] \<and> (key = [] \<or> ivec = []) then Inl undefined_behaviour
      else Inr \<lparr> ciphertext = xor_keystream plaintext key ivec, iv = [], tag = mock_tag key \<rparr>)"

text \<open>\<open>MockCryptoProvider::decrypt\<close>: the tag is compared with the one recomputed from
  the key, before anything is decrypted.\<close>

definition decrypt :: "EncryptedData \<Rightarrow> CryptoKey \<Rightarrow> byte list \<Rightarrow> exn + byte list" where
  "decrypt encrypted key ivec =
     (if tag encrypted \<noteq> mock_tag key
      then Inl (TCFSException CRYPTO_ERROR ''Authentication failed - wrong key'')
      else if ciphertext encrypted \<noteq> [] \<and> (key = [] \<or> ivec = []) then Inl undefined_behaviour
      else Inr (xor_keystream (ciphertext encrypted) key ivec))"

subsection \<open>Hexadecimal and mock base64 codecs\<close>

text \<open>A hexadecimal digit as the stream prints it under \<^verbatim>\<open>std::hex\<close> (lower case).\<close>

definition hex_char :: "nat \<Rightarrow> char" where
  "hex_char n = (if n < 10 then char_of (48 + n) else char_of (87 + n))"

text \<open>\<^verbatim>\<open>ss << std::setw(2) << static_cast<unsigned>(byte)\<close> with fill character
  \<^verbatim>\<open>'0'\<close>: two digits per byte.\<close>

definition toHex :: "byte list \<Rightarrow> string" where
  "toHex data = concat (map (\<lambda>b. [hex_char (unat b div 16), hex_char (unat b mod 16)]) data)"

definition is_xdigit :: "char \<Rightarrow> bool" where
  "is_xdigit c =
     (is_digit c \<or> (97 \<le> (of_char c :: nat) \<and> (of_char c :: nat) \<le> 102)
                \<or> (65 \<le> (of_char c :: nat) \<and> (of_char c :: nat) \<le> 70))"

definition xdigit_val :: "char \<Rightarrow> nat" where
  "xdigit_val c =
     (if is_digit c then of_char c - 48
      else if 97 \<le> (of_char c :: nat) then of_char c - 87
      else of_char c - 55)"

definition hexadecimal :: "string \<Rightarrow> int" where
  "hexadecimal ds = foldl (\<lambda>a c. 16 * a + int (xdigit_val c)) 0 ds"

text \<open>
  \<^verbatim>\<open>std::stoul(str, nullptr, 16)\<close>: \<^verbatim>\<open>strtoul\<close> skips leading white space, reads an
  optional sign and an optional prefix \<^verbatim>\<open>0x\<close> or \<^verbatim>\<open>0X\<close>, then the longest run of
  hexadecimal digits. A prefix with no digit after it converts its \<^verbatim>\<open>0\<close>; otherwise
  \<^verbatim>\<open>stoul\<close> throws \<^verbatim>\<open>std::invalid_argument\<close> when no digit was read, and
  \<^verbatim>\<open>std::out_of_range\<close> when the value exceeds \<^verbatim>\<open>unsigned long\<close>. A negative
  input is negated in 64 bits.
\<close>

definition stoul16 :: "string \<Rightarrow> exn + int" where
  "stoul16 str =
     (let s1 = dropWhile isspace str;
          neg = (s1 \<noteq> [] \<and> hd s1 = CHR ''-'');
          s2 = (if s1 \<noteq> [] \<and> (hd s1 = CHR ''-'' \<or> hd s1 = CHR ''+'') then tl s1 else s1);
          prefixed = (2 \<le> length s2 \<and> hd s2 = CHR ''0''
                      \<and> (s2 ! 1 = CHR ''x'' \<or> s2 ! 1 = CHR ''X''));
          ds = takeWhile is_xdigit (if prefixed then drop 2 s2 else s2);
          v = hexadecimal ds
      in if ds = [] then (if prefixed then Inr 0 else Inl (std_invalid_argument ''stoul''))
         else if 2 ^ 64 \<le> v then Inl (std_out_of_range ''stoul'')
         else Inr (if neg then (2 ^ 64 - v) mod 2 ^ 64 else v))"

text \<open>
  \<open>fromHex\<close>: the loop takes \<^verbatim>\<open>hex.substr(i, 2)\<close> for \<open>i = 0, 2, 4, ...\<close> (a single
  character at the end of a string of odd length), converts it and narrows the value to
  a byte; the first conversion that throws ends the call.
\<close>

fun fromHex :: "string \<Rightarrow> exn + byte list" where
  "fromHex [] = Inr []"
| "fromHex [c] = (case stoul16 [c] of Inl e \<Rightarrow> Inl e | Inr v \<Rightarrow> Inr [of_int v])"
| "fromHex (c1 # c2 # rest) =
     (case stoul16 [c1, c2] of
        Inl e \<Rightarrow> Inl e
      | Inr v \<Rightarrow> (case fromHex rest of Inl e \<Rightarrow> Inl e | Inr bs \<Rightarrow> Inr (of_int v # bs)))"

definition toBase64 :: "byte list \<Rightarrow> string" where
  "toBase64 data = (if data = [] then [] else toHex data @ ''_MOCK_B64'')"

definition fromBase64 :: "string \<Rightarrow> exn + byte list" where
  "fromBase64 base64 =
     (if length base64 < 9 \<or> drop (length base64 - 9) base64 \<noteq> ''_MOCK_B64''
      then Inl (TCFSException InvalidArgument ''Invalid mock base64 format'')
      else fromHex (take (length base64 - 9) base64))"

section \<open>The timestamp grammar as the specification words it\<close>

text \<open>
  The specification accepts exactly the strings \<^verbatim>\<open>YYYY-MM-DDTHH:MM:SSZ\<close>: twenty
  characters, digits at the fourteen digit positions, the separators \<^verbatim>\<open>-\<close>, \<^verbatim>\<open>-\<close>,
  \<^verbatim>\<open>T\<close>, \<^verbatim>\<open>:\<close>, \<^verbatim>\<open>:\<close> and a final \<^verbatim>\<open>Z\<close>; and of those the ones whose month is
  1..12, day 1..31, hour 0..23, minute and second 0..59. These two predicates are
  written from that description by position, independently of the regular expression
  and the conversions of the source.
\<close>

definition two_digits :: "string \<Rightarrow> nat \<Rightarrow> int" where
  "two_digits s i = 10 * int (digit_val (s ! i)) + int (digit_val (s ! (i + 1)))"

definition rfc3339_shape :: "string \<Rightarrow> bool" where
  "rfc3339_shape s =
     (length s = 20
      \<and> list_all (\<lambda>i. is_digit (s ! i)) [0, 1, 2, 3, 5, 6, 8, 9, 11, 12, 14, 15, 17, 18]
      \<and> s ! 4 = CHR ''-'' \<and> s ! 7 = CHR ''-'' \<and> s ! 10 = CHR ''T''
      \<and> s ! 13 = CHR '':'' \<and> s ! 16 = CHR '':'' \<and> s ! 19 = CHR ''Z'')"

definition rfc3339_fields_in_range :: "string \<Rightarrow> bool" where
  "rfc3339_fields_in_range s =
     (1 \<le> two_digits s 5 \<and> two_digits s 5 \<le> 12
      \<and> 1 \<le> two_digits s 8 \<and> two_digits s 8 \<le> 31
      \<and> two_digits s 11 \<le> 23 \<and> two_digits s 14 \<le> 59 \<and> two_digits s 17 \<le> 59)"

section \<open>Properties of the Result kernel\<close>

text \<open>
  Claim C8. For every Result in the error state, \<open>value()\<close> returns no payload, defaulted
  or otherwise: it raises a TCFSException that carries the result's own error code and
  message. The void specialisation behaves the same.
\<close>

theorem C8_value_of_error_raises:
  "(\<not> has_value r \<longrightarrow>
      value_Result r = Inl (TCFSException (getErrorCode r) (getErrorMessage r))
      \<and> (\<forall>v. value_Result r \<noteq> Inr v))
   \<and> (\<not> has_value_void rv \<longrightarrow>
      value_Result_void rv = Inl (TCFSException (getErrorCode_void rv) (getErrorMessage_void rv))
      \<and> value_Result_void rv \<noteq> Inr ())"
  by (cases r; cases rv) simp_all

theorem C8_value_of_error_raises_witness:
  "\<not> has_value (Error CRYPTO_ERROR ''Test error'' :: int Result)
   \<and> value_Result (Error CRYPTO_ERROR ''Test error'' :: int Result)
       = Inl (TCFSException CRYPTO_ERROR ''Test error'')
   \<and> \<not> has_value_void (VoidError FILE_ACCESS_ERROR ''Access denied'')
   \<and> value_Result_void (VoidError FILE_ACCESS_ERROR ''Access denied'')
       = Inl (TCFSException FILE_ACCESS_ERROR ''Access denied'')"
  using C8_value_of_error_raises
    [of "Error CRYPTO_ERROR ''Test error'' :: int Result"
        "VoidError FILE_ACCESS_ERROR ''Access denied''"]
  by simp

section \<open>Parsing timestamps\<close>

lemma length20E:
  assumes "length (s::string) = 20"
  obtains c0 c1 c2 c3 c4 c5 c6 c7 c8 c9 c10 c11 c12 c13 c14 c15 c16 c17 c18 c19 where
    "s = [c0, c1, c2, c3, c4, c5, c6, c7, c8, c9, c10, c11, c12, c13, c14, c15, c16, c17, c18, c19]"
  using assms by (auto simp: numeral_eq_Suc length_Suc_conv)

lemma regex_match_length: "regex_match as s \<Longrightarrow> length s = length as"
  by (induction as s rule: regex_match.induct) auto

text \<open>The regular expression of the source accepts the strings of the specified shape.\<close>

lemma regex_match_shape: "regex_match rfc3339_regex s \<longleftrightarrow> rfc3339_shape s"
proof (cases "length s = 20")
  case True
  then obtain c0 c1 c2 c3 c4 c5 c6 c7 c8 c9 c10 c11 c12 c13 c14 c15 c16 c17 c18 c19 where
    "s = [c0, c1, c2, c3, c4, c5, c6, c7, c8, c9, c10, c11, c12, c13, c14, c15, c16, c17, c18, c19]"
    by (rule length20E)
  then show ?thesis
    by (simp add: rfc3339_regex_def rfc3339_shape_def) blast
next
  case False
  then show ?thesis
    using regex_match_length [of rfc3339_regex s]
    by (auto simp: rfc3339_shape_def rfc3339_regex_def)
qed

lemma is_digit_facts:
  "is_digit c \<Longrightarrow> \<not> isspace c \<and> c \<noteq> CHR ''-'' \<and> c \<noteq> CHR ''+''"
  by (auto simp: is_digit_def isspace_def)

lemma digit_val_bound: "is_digit c \<Longrightarrow> digit_val c \<le> 9"
  by (auto simp: is_digit_def digit_val_def)

lemma stoi_two:
  assumes "is_digit a" "is_digit b"
  shows "stoi [a, b] = Inr (10 * int (digit_val a) + int (digit_val b))"
  using assms is_digit_facts [of a] digit_val_bound [of a] digit_val_bound [of b]
  by (simp add: stoi_def decimal_def Let_def)

lemma stoi_four:
  assumes "is_digit a" "is_digit b" "is_digit c" "is_digit d"
  shows "stoi [a, b, c, d] =
           Inr (1000 * int (digit_val a) + 100 * int (digit_val b)
                + 10 * int (digit_val c) + int (digit_val d))"
  using assms is_digit_facts [of a] digit_val_bound [of a] digit_val_bound [of b]
    digit_val_bound [of c] digit_val_bound [of d]
  by (simp add: stoi_def decimal_def Let_def)

text \<open>On a string of the right shape no conversion throws, and the six fields reach the
  range check with their decimal values.\<close>

lemma parse_rfc3339_wellformed:
  assumes "rfc3339_shape s"
  shows "parse_rfc3339 s =
     parse_fields
       (1000 * int (digit_val (s ! 0)) + 100 * int (digit_val (s ! 1))
          + 10 * int (digit_val (s ! 2)) + int (digit_val (s ! 3)))
       (two_digits s 5) (two_digits s 8) (two_digits s 11) (two_digits s 14) (two_digits s 17)"
proof -
  from assms have "length s = 20" by (simp add: rfc3339_shape_def)
  then obtain c0 c1 c2 c3 c4 c5 c6 c7 c8 c9 c10 c11 c12 c13 c14 c15 c16 c17 c18 c19 where
    s: "s = [c0, c1, c2, c3, c4, c5, c6, c7, c8, c9, c10, c11, c12, c13, c14, c15, c16, c17, c18, c19]"
    by (rule length20E)
  from assms have m: "regex_match rfc3339_regex s" by (simp add: regex_match_shape)
  from assms s have d: "is_digit c0" "is_digit c1" "is_digit c2" "is_digit c3"
    "is_digit c5" "is_digit c6" "is_digit c8" "is_digit c9" "is_digit c11" "is_digit c12"
    "is_digit c14" "is_digit c15" "is_digit c17" "is_digit c18"
    by (simp_all add: rfc3339_shape_def)
  show ?thesis
    unfolding parse_rfc3339_def using m
    by (simp add: s sub_match_def stoi_two stoi_four d two_digits_def)
qed

text \<open>Every error of \<open>parse_rfc3339\<close> has the code \<open>InvalidTimeFormat\<close> and a message.\<close>

lemma parse_rfc3339_error_code:
  "parse_rfc3339 s = Error c m \<Longrightarrow> c = InvalidTimeFormat \<and> m \<noteq> []"
  by (auto simp: parse_rfc3339_def parse_fields_def Let_def split: if_splits sum.splits)

lemma parse_month_13:
  "parse_rfc3339 ''2025-13-01T00:00:00Z'' = Error InvalidTimeFormat ''Invalid date/time values''"
  by code_simp

text \<open>
  Claim C6. A string that does not have the shape \<^verbatim>\<open>YYYY-MM-DDTHH:MM:SSZ\<close>, or that has
  a field out of range (month 1-12, day 1-31, hour 0-23, minute and second 0-59), makes
  \<open>parse_rfc3339\<close> return an invalid-time-format error, and \<open>set_unlock_time\<close> on that
  string throws an exception with that code and message instead of changing the policy.
  The string \<^verbatim>\<open>2025-13-01T00:00:00Z\<close> (month 13) is rejected so.
\<close>

theorem C6_malformed_timestamp_rejected:
  "(\<not> (rfc3339_shape s \<and> rfc3339_fields_in_range s) \<longrightarrow>
      (\<exists>m. parse_rfc3339 s = Error InvalidTimeFormat m
          \<and> set_unlock_time_rfc3339 s p = Inl (TCFSException InvalidTimeFormat m)))
   \<and> getErrorCode (parse_rfc3339 ''2025-13-01T00:00:00Z'') = InvalidTimeFormat"
proof -
  have "\<exists>m. parse_rfc3339 s = Error InvalidTimeFormat m
          \<and> set_unlock_time_rfc3339 s p = Inl (TCFSException InvalidTimeFormat m)"
    if bad: "\<not> (rfc3339_shape s \<and> rfc3339_fields_in_range s)"
  proof (cases "rfc3339_shape s")
    case False
    then show ?thesis
      by (simp add: parse_rfc3339_def set_unlock_time_rfc3339_def set_unlock_time_def
            regex_match_shape)
  next
    case True
    with bad have r: "\<not> rfc3339_fields_in_range s" by simp
    have nn: "0 \<le> two_digits s i" for i by (simp add: two_digits_def)
    from r nn [of 11] nn [of 14] nn [of 17] show ?thesis
      unfolding parse_rfc3339_wellformed [OF True] set_unlock_time_rfc3339_def
        set_unlock_time_def
      by (auto simp: parse_fields_def rfc3339_fields_in_range_def)
  qed
  then show ?thesis by (simp add: parse_month_13)
qed

theorem C6_malformed_timestamp_rejected_witness:
  "\<not> (rfc3339_shape ''2025-13-01T00:00:00Z'' \<and> rfc3339_fields_in_range ''2025-13-01T00:00:00Z'')
   \<and> parse_rfc3339 ''2025-13-01T00:00:00Z''
       = Error InvalidTimeFormat ''Invalid date/time values''
   \<and> set_unlock_time_rfc3339 ''2025-13-01T00:00:00Z'' Policy_default
       = Inl (TCFSException InvalidTimeFormat ''Invalid date/time values'')"
proof -
  have h: "\<not> (rfc3339_shape ''2025-13-01T00:00:00Z''
               \<and> rfc3339_fields_in_range ''2025-13-01T00:00:00Z'')"
    by (simp add: rfc3339_fields_in_range_def two_digits_def digit_val_def)
  from C6_malformed_timestamp_rejected [of "''2025-13-01T00:00:00Z''" Policy_default] h
  show ?thesis by (auto simp: parse_month_13)
qed

section \<open>Calendar arithmetic\<close>

text \<open>Well-known instants: the epoch, the leap day of 2000, one billion seconds, the
  last second of a signed 32-bit \<open>time_t\<close>, and a day that \<open>timegm\<close> normalises
  (31 February 2024 is 2 March).\<close>

lemma timegm_known_values:
  "timegm \<lparr>tm_year = 70, tm_mon = 0, tm_mday = 1, tm_hour = 0, tm_min = 0, tm_sec = 0\<rparr> = 0"
  "timegm \<lparr>tm_year = 100, tm_mon = 1, tm_mday = 29, tm_hour = 0, tm_min = 0, tm_sec = 0\<rparr>
     = 951782400"
  "timegm \<lparr>tm_year = 101, tm_mon = 8, tm_mday = 9, tm_hour = 1, tm_min = 46, tm_sec = 40\<rparr>
     = 1000000000"
  "timegm \<lparr>tm_year = 138, tm_mon = 0, tm_mday = 19, tm_hour = 3, tm_min = 14, tm_sec = 7\<rparr>
     = 2147483647"
  "timegm \<lparr>tm_year = 124, tm_mon = 1, tm_mday = 31, tm_hour = 0, tm_min = 0, tm_sec = 0\<rparr>
     = timegm \<lparr>tm_year = 124, tm_mon = 2, tm_mday = 2, tm_hour = 0, tm_min = 0, tm_sec = 0\<rparr>"
  by code_simp+

lemma gmtime_known_values:
  "gmtime 0 = \<lparr>tm_year = 70, tm_mon = 0, tm_mday = 1, tm_hour = 0, tm_min = 0, tm_sec = 0\<rparr>"
  "gmtime 951782400
     = \<lparr>tm_year = 100, tm_mon = 1, tm_mday = 29, tm_hour = 0, tm_min = 0, tm_sec = 0\<rparr>"
  "gmtime 2147483647
     = \<lparr>tm_year = 138, tm_mon = 0, tm_mday = 19, tm_hour = 3, tm_min = 14, tm_sec = 7\<rparr>"
  "gmtime (- 1)
     = \<lparr>tm_year = 69, tm_mon = 11, tm_mday = 31, tm_hour = 23, tm_min = 59, tm_sec = 59\<rparr>"
  by code_simp+

text \<open>
  \<open>civil_from_days\<close> returns a date with a month in 1..12 and a day in 1..31 on which
  \<open>days_from_civil\<close> gives the day count back; its year lies in the 400-year era of
  the day count. Every quotient is named, with its defining inequalities, so that the
  steps are linear arithmetic.
\<close>

lemma civil_from_days_inverse:
  fixes z :: int
  defines "y \<equiv> fst (civil_from_days z)"
    and "m \<equiv> fst (snd (civil_from_days z))"
    and "d \<equiv> snd (snd (civil_from_days z))"
  shows "days_from_civil y m d = z \<and> 1 \<le> m \<and> m \<le> 12 \<and> 1 \<le> d \<and> d \<le> 31
         \<and> 400 * ((z + 719468) div 146097) \<le> y \<and> y \<le> 400 * ((z + 719468) div 146097) + 400"
proof -
  define z' where "z' = z + 719468"
  define era where "era = z' div 146097"
  define doe where "doe = z' mod 146097"
  define k1 where "k1 = doe div 36524"
  define m1 where "m1 = doe mod 36524"
  define c where "c = min 3 k1"
  define r1 where "r1 = doe - 36524 * c"
  define q where "q = r1 div 1461"
  define r2 where "r2 = r1 - 1461 * q"
  define k3 where "k3 = r2 div 365"
  define m3 where "m3 = r2 mod 365"
  define a where "a = min 3 k3"
  define doy where "doy = r2 - 365 * a"
  define yy where "yy = 400 * era + 100 * c + 4 * q + a"
  define yoe where "yoe = 100 * c + 4 * q + a"
  define mp where "mp = (5 * doy + 2) div 153"
  define m4 where "m4 = (5 * doy + 2) mod 153"
  define f where "f = (153 * mp + 2) div 5"
  define m5 where "m5 = (153 * mp + 2) mod 5"
  define mm where "mm = (if mp < 10 then mp + 3 else mp - 9)"
  have ymd: "civil_from_days z = (if mm \<le> 2 then yy + 1 else yy, mm, doy - f + 1)"
    unfolding civil_from_days_def Let_def mm_def f_def mp_def yy_def doy_def a_def k3_def
      r2_def q_def r1_def c_def k1_def doe_def era_def z'_def
    by (rule refl)
  have yy: "yy = 400 * era + yoe" by (simp add: yy_def yoe_def)
  have doe: "0 \<le> doe" "doe \<le> 146096" by (simp_all add: doe_def)
  have z: "z' = 146097 * era + doe" by (simp add: era_def doe_def)
  have e1: "doe = 36524 * k1 + m1" "0 \<le> m1" "m1 < 36524"
    unfolding k1_def m1_def by simp_all
  have k1: "0 \<le> k1" "k1 \<le> 4" using e1 doe by linarith+
  have c: "0 \<le> c" "c \<le> 3" using k1 by (simp_all add: c_def)
  have r1: "0 \<le> r1" "r1 \<le> 36524"
    using e1 doe k1 unfolding r1_def c_def min_def by (auto split: if_splits)
  have e2: "r1 = 1461 * q + r2" "0 \<le> r2" "r2 < 1461"
    unfolding r2_def q_def by (simp_all add: minus_mult_div_eq_mod)
  have q: "0 \<le> q" "q \<le> 24" using e2 r1 by linarith+
  have e3: "r2 = 365 * k3 + m3" "0 \<le> m3" "m3 < 365" unfolding k3_def m3_def by simp_all
  have k3: "0 \<le> k3" "k3 \<le> 4" using e3 e2 by linarith+
  have a: "0 \<le> a" "a \<le> 3" using k3 by (simp_all add: a_def)
  have doy: "0 \<le> doy" "doy \<le> 365"
    using e3 e2 k3 unfolding doy_def a_def min_def by (auto split: if_splits)
  have e4: "5 * doy + 2 = 153 * mp + m4" "0 \<le> m4" "m4 < 153"
    unfolding mp_def m4_def by simp_all
  have mp: "0 \<le> mp" "mp \<le> 11" using e4 doy by linarith+
  have e5: "153 * mp + 2 = 5 * f + m5" "0 \<le> m5" "m5 < 5"
    unfolding f_def m5_def by simp_all
  have dd: "0 \<le> doy - f" "doy - f \<le> 30" using e4 e5 by linarith+
  have yoe: "0 \<le> yoe" "yoe \<le> 399" using c q a by (simp_all add: yoe_def)
  have ydiv: "yy div 400 = era" and ymod: "yy mod 400 = yoe"
    using yoe yy by (auto intro: int_div_pos_eq int_mod_pos_eq)
  have y4: "yoe div 4 = 25 * c + q"
    by (rule int_div_pos_eq [where r = a]) (use a in \<open>simp_all add: yoe_def\<close>)
  have y100: "yoe div 100 = c"
    by (rule int_div_pos_eq [where r = "4 * q + a"]) (use a q in \<open>simp_all add: yoe_def\<close>)
  have doe_eq: "doe = 36524 * c + 1461 * q + 365 * a + doy"
    by (simp add: doy_def r2_def r1_def)
  have "yoe * 365 + (25 * c + q) - c + doy = doe"
    by (simp add: doe_eq yoe_def)
  then have core: "yoe * 365 + yoe div 4 - yoe div 100 + doy = doe"
    by (simp only: y4 y100)
  have mm: "1 \<le> mm" "mm \<le> 12" using mp by (simp_all add: mm_def)
  have mpback: "(if 2 < mm then mm - 3 else mm + 9) = mp" using mp by (simp add: mm_def)
  have yback: "(if mm \<le> 2 then (if mm \<le> 2 then yy + 1 else yy) - 1
                 else (if mm \<le> 2 then yy + 1 else yy)) = yy"
    by simp
  have fback: "(153 * mp + 2) div 5 + (doy - f + 1) - 1 = doy" by (simp add: f_def)
  have "days_from_civil (if mm \<le> 2 then yy + 1 else yy) mm (doy - f + 1)
          = era * 146097 + doe - 719468"
    unfolding days_from_civil_def Let_def mpback yback ydiv ymod fback core ..
  then have 1: "days_from_civil y m d = z" using z by (simp add: z'_def y_def m_def d_def ymd)
  have 2: "m = mm" "d = doy - f + 1" "y = (if mm \<le> 2 then yy + 1 else yy)"
    by (simp_all add: y_def m_def d_def ymd)
  have 3: "400 * era \<le> y" "y \<le> 400 * era + 400" using yoe yy 2 by (auto split: if_splits)
  show ?thesis
    using 1 2 3 mm dd unfolding era_def z'_def by simp
qed

lemma wrap64_id: "in_int64 x \<Longrightarrow> wrap64 x = x"
  by (simp add: wrap64_def in_int64_def)

text \<open>\<open>timegm\<close> inverts \<open>gmtime\<close>, whose fields are in the ranges that
  \<open>parse_rfc3339\<close> checks.\<close>

lemma gmtime_fields:
  "timegm (gmtime s) = s
   \<and> 1 \<le> tm_mon (gmtime s) + 1 \<and> tm_mon (gmtime s) + 1 \<le> 12
   \<and> 1 \<le> tm_mday (gmtime s) \<and> tm_mday (gmtime s) \<le> 31
   \<and> 0 \<le> tm_hour (gmtime s) \<and> tm_hour (gmtime s) \<le> 23
   \<and> 0 \<le> tm_min (gmtime s) \<and> tm_min (gmtime s) \<le> 59
   \<and> 0 \<le> tm_sec (gmtime s) \<and> tm_sec (gmtime s) \<le> 59
   \<and> 400 * ((s div 86400 + 719468) div 146097) \<le> tm_year (gmtime s) + 1900
   \<and> tm_year (gmtime s) + 1900 \<le> 400 * ((s div 86400 + 719468) div 146097) + 400"
proof -
  define days where "days = s div 86400"
  define rem where "rem = s mod 86400"
  define h where "h = rem div 3600"
  define r where "r = rem mod 3600"
  define mi where "mi = r div 60"
  define se where "se = r mod 60"
  have rem: "0 \<le> rem" "rem < 86400" by (simp_all add: rem_def)
  have s: "s = 86400 * days + rem" by (simp add: days_def rem_def)
  have e1: "rem = 3600 * h + r" "0 \<le> r" "r < 3600" by (simp_all add: h_def r_def)
  have e2: "r = 60 * mi + se" "0 \<le> se" "se < 60" by (simp_all add: mi_def se_def)
  have se: "rem mod 60 = se"
    unfolding se_def r_def by (simp add: mod_mod_cancel)
  have h: "0 \<le> h" "h \<le> 23" using e1 rem by linarith+
  have mi: "0 \<le> mi" "mi \<le> 59" using e2 e1 by linarith+
  have g: "gmtime s = \<lparr> tm_year = fst (civil_from_days days) - 1900,
                         tm_mon = fst (snd (civil_from_days days)) - 1,
                         tm_mday = snd (snd (civil_from_days days)),
                         tm_hour = h, tm_min = mi, tm_sec = se \<rparr>"
    unfolding gmtime_def Let_def days_def [symmetric] rem_def [symmetric] h_def [symmetric]
       r_def [symmetric] mi_def [symmetric] se by (rule refl)
  note c = civil_from_days_inverse [of days]
  have t: "timegm (gmtime s) = days * 86400 + h * 3600 + mi * 60 + se"
    unfolding g timegm_def using c by simp
  have "timegm (gmtime s) = s" unfolding t using s e1 e2 by linarith
  then show ?thesis
    using c h mi e2 unfolding g days_def by simp
qed

subsection \<open>Printing and reading decimal fields\<close>

lemma of_char_digit_char: "k < 10 \<Longrightarrow> (of_char (digit_char k) :: nat) = 48 + k"
  by (simp add: digit_char_def)

lemma digit_char_facts: "k < 10 \<Longrightarrow> is_digit (digit_char k) \<and> digit_val (digit_char k) = k"
  by (simp add: is_digit_def digit_val_def of_char_digit_char)

lemma show_nat_small: "n < 10 \<Longrightarrow> show_nat n = [digit_char n]"
  by (subst show_nat.simps) simp

lemma show_nat_step: "10 \<le> n \<Longrightarrow> show_nat n = show_nat (n div 10) @ [digit_char (n mod 10)]"
  by (subst show_nat.simps) simp

lemma show_int_four:
  assumes "1000 \<le> y" "y \<le> 9999"
  shows "show_int y = [digit_char (nat y div 1000), digit_char (nat y div 100 mod 10),
                       digit_char (nat y div 10 mod 10), digit_char (nat y mod 10)]"
proof -
  define n where "n = nat y"
  have n: "1000 \<le> n" "n \<le> 9999" using assms by (simp_all add: n_def)
  have a: "show_nat n = show_nat (n div 10) @ [digit_char (n mod 10)]"
    using n by (simp add: show_nat_step)
  have b: "show_nat (n div 10) = show_nat (n div 100) @ [digit_char (n div 10 mod 10)]"
    using n show_nat_step [of "n div 10"] by (simp add: div_mult2_eq [symmetric])
  have c: "show_nat (n div 100) = show_nat (n div 1000) @ [digit_char (n div 100 mod 10)]"
    using n show_nat_step [of "n div 100"] by (simp add: div_mult2_eq [symmetric])
  have d: "show_nat (n div 1000) = [digit_char (n div 1000)]"
    using n by (simp add: show_nat_small)
  show ?thesis
    using assms by (simp add: show_int_def n_def [symmetric] a b c d)
qed

lemma char_of_48: "char_of (48::nat) = CHR ''0''"
  by code_simp

lemma pad2_two:
  assumes "0 \<le> v" "v \<le> 99"
  shows "pad2 v = [digit_char (nat v div 10), digit_char (nat v mod 10)]"
proof (cases "v < 10")
  case True
  with assms show ?thesis
    by (simp add: pad2_def show_int_def show_nat_small digit_char_def char_of_48)
next
  case False
  with assms have "show_nat (nat v) = [digit_char (nat v div 10), digit_char (nat v mod 10)]"
    using show_nat_step [of "nat v"] show_nat_small [of "nat v div 10"] by simp
  with assms show ?thesis by (simp add: pad2_def show_int_def)
qed

subsection \<open>Formatting a time point and parsing it again\<close>

lemma to_time_t_bounds:
  assumes "in_int64 t"
  shows "- 9223372036 \<le> to_time_t t" and "to_time_t t \<le> 9223372036"
    and "in_int64 (to_time_t t * 1000000000)"
proof -
  define k where "k = \<bar>t\<bar> div 1000000000"
  define r where "r = \<bar>t\<bar> mod 1000000000"
  have e: "\<bar>t\<bar> = 1000000000 * k + r" "0 \<le> r" "r < 1000000000"
    by (simp_all add: k_def r_def)
  have a: "\<bar>t\<bar> \<le> 9223372036854775808" using assms by (simp add: in_int64_def) linarith
  have k: "0 \<le> k" "k \<le> 9223372036" using e a by linarith+
  have s: "to_time_t t = (if t < 0 then - k else k)"
    by (simp add: to_time_t_def k_def sgn_if)
  show "- 9223372036 \<le> to_time_t t" "to_time_t t \<le> 9223372036" using k s by simp_all
  show "in_int64 (to_time_t t * 1000000000)"
    using e k assms unfolding s in_int64_def by (auto split: if_splits)
qed

lemma decimal_digits2:
  "10 * int (n div 10) + int (n mod 10) = int n"
proof -
  have "10 * (n div 10) + n mod 10 = n" by simp
  then have "int (10 * (n div 10) + n mod 10) = int n" by (rule arg_cong)
  then show ?thesis by (simp only: of_nat_add of_nat_mult of_nat_numeral)
qed

lemma decimal_digits4:
  "1000 * int (n div 1000) + 100 * int (n div 100 mod 10) + 10 * int (n div 10 mod 10)
       + int (n mod 10) = int n"
proof -
  define a where "a = n div 10"
  define b where "b = a div 10"
  define c where "c = b div 10"
  have 1: "10 * int a + int (n mod 10) = int n"
    unfolding a_def by (rule decimal_digits2)
  have 2: "10 * int b + int (a mod 10) = int a"
    unfolding b_def by (rule decimal_digits2)
  have 3: "10 * int c + int (b mod 10) = int b"
    unfolding c_def by (rule decimal_digits2)
  have b: "n div 100 = b" unfolding b_def a_def by (simp add: div_mult2_eq [symmetric])
  have c: "n div 1000 = c" unfolding c_def b_def a_def by (simp add: div_mult2_eq [symmetric])
  have "1000 * int c + 100 * int (b mod 10) + 10 * int (a mod 10) + int (n mod 10) = int n"
    using 1 2 3 by linarith
  then show ?thesis unfolding b c a_def .
qed

lemma parse_put_time:
  assumes y: "1000 \<le> tm_year t + 1900" "tm_year t + 1900 \<le> 9999"
      and mo: "0 \<le> tm_mon t + 1" "tm_mon t + 1 \<le> 99"
      and d: "0 \<le> tm_mday t" "tm_mday t \<le> 99"
      and h: "0 \<le> tm_hour t" "tm_hour t \<le> 99"
      and mi: "0 \<le> tm_min t" "tm_min t \<le> 99"
      and se: "0 \<le> tm_sec t" "tm_sec t \<le> 99"
  shows "parse_rfc3339 (put_time t) =
           parse_fields (tm_year t + 1900) (tm_mon t + 1) (tm_mday t)
             (tm_hour t) (tm_min t) (tm_sec t)"
proof -
  define Y where "Y = nat (tm_year t + 1900)"
  define Mo where "Mo = nat (tm_mon t + 1)"
  define D where "D = nat (tm_mday t)"
  define H where "H = nat (tm_hour t)"
  define Mi where "Mi = nat (tm_min t)"
  define S where "S = nat (tm_sec t)"
  have b: "Y \<le> 9999" "Mo \<le> 99" "D \<le> 99" "H \<le> 99" "Mi \<le> 99" "S \<le> 99"
    using assms by (simp_all add: Y_def Mo_def D_def H_def Mi_def S_def)
  have i: "int Y = tm_year t + 1900" "int Mo = tm_mon t + 1" "int D = tm_mday t"
    "int H = tm_hour t" "int Mi = tm_min t" "int S = tm_sec t"
    using assms by (simp_all add: Y_def Mo_def D_def H_def Mi_def S_def)
  have dg: "Y div 1000 < 10" "Y div 100 mod 10 < 10" "Y div 10 mod 10 < 10" "Y mod 10 < 10"
    "Mo div 10 < 10" "Mo mod 10 < 10" "D div 10 < 10" "D mod 10 < 10"
    "H div 10 < 10" "H mod 10 < 10"
    "Mi div 10 < 10" "Mi mod 10 < 10" "S div 10 < 10" "S mod 10 < 10"
    using b by simp_all
  have s: "put_time t =
     [digit_char (Y div 1000), digit_char (Y div 100 mod 10), digit_char (Y div 10 mod 10),
      digit_char (Y mod 10),
      CHR ''-'', digit_char (Mo div 10), digit_char (Mo mod 10),
      CHR ''-'', digit_char (D div 10), digit_char (D mod 10),
      CHR ''T'', digit_char (H div 10), digit_char (H mod 10),
      CHR '':'', digit_char (Mi div 10), digit_char (Mi mod 10),
      CHR '':'', digit_char (S div 10), digit_char (S mod 10), CHR ''Z'']"
    unfolding put_time_def
    by (simp add: show_int_four [OF y] pad2_two [OF mo] pad2_two [OF d] pad2_two [OF h]
          pad2_two [OF mi] pad2_two [OF se] Y_def Mo_def D_def H_def Mi_def S_def)
  have sh: "rfc3339_shape (put_time t)"
    unfolding s rfc3339_shape_def using dg by (simp add: digit_char_facts)
  show ?thesis
    unfolding parse_rfc3339_wellformed [OF sh] unfolding s two_digits_def
    using dg b by (simp add: digit_char_facts decimal_digits4 decimal_digits2 i)
qed

text \<open>
  A 64-bit time point is formatted with a four-digit year (between 1600 and 2400), and
  parsing the text gives the time point truncated to its second, unless that second is
  \<open>-1\<close>, the value \<open>parse_rfc3339\<close> takes for a failure of \<open>timegm\<close>.
\<close>

lemma parse_format_roundtrip:
  assumes "in_int64 t" and "to_time_t t \<noteq> - 1"
  shows "parse_rfc3339 (format_rfc3339 t) = Value (to_time_t t * 1000000000)"
proof -
  define s where "s = to_time_t t"
  note tb = to_time_t_bounds [OF assms(1), folded s_def]
  note g = gmtime_fields [of s]
  define dz where "dz = s div 86400 + 719468"
  define era where "era = dz div 146097"
  define k where "k = s div 86400"
  define r where "r = s mod 86400"
  have e: "s = 86400 * k + r" "0 \<le> r" "r < 86400" by (simp_all add: k_def r_def)
  have k: "- 106752 \<le> k" "k \<le> 106751" using e tb by linarith+
  define m where "m = dz mod 146097"
  have e2: "dz = 146097 * era + m" "0 \<le> m" "m < 146097" by (simp_all add: era_def m_def)
  have dz: "dz = k + 719468" by (simp add: dz_def k_def)
  have era: "4 \<le> era" "era \<le> 5" using e2 dz k by linarith+
  have yb: "1000 \<le> tm_year (gmtime s) + 1900" "tm_year (gmtime s) + 1900 \<le> 9999"
    using g era unfolding era_def dz_def by linarith+
  have "parse_rfc3339 (put_time (gmtime s)) =
           parse_fields (tm_year (gmtime s) + 1900) (tm_mon (gmtime s) + 1) (tm_mday (gmtime s))
              (tm_hour (gmtime s)) (tm_min (gmtime s)) (tm_sec (gmtime s))"
    by (rule parse_put_time) (use g yb in simp_all)
  also have "\<dots> = Value (from_time_t (timegm (gmtime s)))"
  proof -
    have tm: "\<lparr>tm_year = tm_year (gmtime s) + 1900 - 1900,
               tm_mon = tm_mon (gmtime s) + 1 - 1, tm_mday = tm_mday (gmtime s),
               tm_hour = tm_hour (gmtime s), tm_min = tm_min (gmtime s),
               tm_sec = tm_sec (gmtime s)\<rparr> = gmtime s"
      by simp
    have ne: "timegm (gmtime s) \<noteq> - 1" using g assms(2) by (simp add: s_def)
    show ?thesis
      unfolding parse_fields_def tm Let_def using g ne by simp
  qed
  also have "\<dots> = Value (s * 1000000000)"
    using g tb(3) by (simp add: from_time_t_def wrap64_id)
  finally show ?thesis by (simp add: format_rfc3339_def s_def)
qed

section \<open>Reachability and validation\<close>

text \<open>
  Claim C4 as stated, for every policy, fails: the subtraction of the grace period is
  done in 64 bits and can wrap around. The timestamp \<^verbatim>\<open>1677-09-21T00:12:45Z\<close> parses
  to a time point less than two seconds above the lowest one. On 2026-10-30 a policy
  with that unlock time and no grace period is reached; with a grace period of two
  seconds the difference wraps round to a time point far in the future, and the policy
  is not reached, although the current instant is after the unlock time minus the grace
  period. Raising the grace period has turned the answer from true to false.
\<close>

theorem C4_reachability_counterexample:
  "parse_rfc3339 ''1677-09-21T00:12:45Z'' = Value (- 9223372035000000000)
   \<and> in_int64 (- 9223372035000000000)
   \<and> is_unlock_time_reached 1793350000000000000
         (Policy_default\<lparr>unlock_at := - 9223372035000000000, owner := ''u'',
                           grace_seconds := 0\<rparr>)
   \<and> \<not> is_unlock_time_reached 1793350000000000000
         (Policy_default\<lparr>unlock_at := - 9223372035000000000, owner := ''u'',
                           grace_seconds := 2\<rparr>)
   \<and> - 9223372035000000000 - uint (2 :: 32 word) * 1000000000
         \<le> (1793350000000000000 :: int)"
  by code_simp

text \<open>
  Claim C4, amended. For every policy whose unlock time minus its grace period is still
  a 64-bit time point (the subtraction of the source does not overflow),
  \<open>is_unlock_time_reached()\<close> is true exactly when the current instant is at or after
  \<open>unlock_at\<close> minus the grace period; and, for a fixed \<open>unlock_at\<close> and current
  instant, raising the grace period to that value from any smaller value \<open>g\<close> can turn
  the answer from false to true but never from true to false.
\<close>

theorem C4_reachability:
  assumes "in_int64 (unlock_at p)"
      and "in_int64 (unlock_at p - uint (grace_seconds p) * 1000000000)"
  shows "(is_unlock_time_reached now p
            \<longleftrightarrow> unlock_at p - uint (grace_seconds p) * 1000000000 \<le> now)
         \<and> (\<forall>g. g \<le> grace_seconds p
                \<longrightarrow> is_unlock_time_reached now (p\<lparr>grace_seconds := g\<rparr>)
                \<longrightarrow> is_unlock_time_reached now p)"
proof -
  have here: "is_unlock_time_reached now p
            \<longleftrightarrow> unlock_at p - uint (grace_seconds p) * 1000000000 \<le> now"
    using assms(2) by (simp add: is_unlock_time_reached_def wrap64_id)
  have "is_unlock_time_reached now p"
    if le: "g \<le> grace_seconds p"
      and r: "is_unlock_time_reached now (p\<lparr>grace_seconds := g\<rparr>)" for g
  proof -
    have u: "uint g \<le> uint (grace_seconds p)" using le by (simp add: word_le_def)
    have "0 \<le> uint g" by simp
    with u assms have "in_int64 (unlock_at p - uint g * 1000000000)"
      unfolding in_int64_def by linarith
    with r have "unlock_at p - uint g * 1000000000 \<le> now"
      by (simp add: is_unlock_time_reached_def wrap64_id)
    with u have "unlock_at p - uint (grace_seconds p) * 1000000000 \<le> now" by linarith
    with here show ?thesis by simp
  qed
  with here show ?thesis by blast
qed

text \<open>The scenario of the specification: unlock a day ahead with 1800 seconds of grace;
  not reached now, reached 1700 seconds before the unlock instant.\<close>

theorem C4_reachability_witness:
  "in_int64 (unlock_at (Policy_default\<lparr>unlock_at := 1793436400000000000, owner := ''u'',
                                       grace_seconds := 1800\<rparr>))
   \<and> \<not> is_unlock_time_reached 1793350000000000000
         (Policy_default\<lparr>unlock_at := 1793436400000000000, owner := ''u'', grace_seconds := 1800\<rparr>)
   \<and> is_unlock_time_reached 1793434700000000000
         (Policy_default\<lparr>unlock_at := 1793436400000000000, owner := ''u'', grace_seconds := 1800\<rparr>)"
  using
    C4_reachability [of "Policy_default\<lparr>unlock_at := 1793436400000000000, owner := ''u'',
                                         grace_seconds := 1800\<rparr>" 1793350000000000000]
    C4_reachability [of "Policy_default\<lparr>unlock_at := 1793436400000000000, owner := ''u'',
                                         grace_seconds := 1800\<rparr>" 1793434700000000000]
  by (simp add: Policy_default_def in_int64_def)

text \<open>
  Claim C5. \<open>validate()\<close> fails exactly when the owner is empty, or the unlock time is
  still the default epoch value, or the unlock time is not strictly after the current
  instant; every failure has the code invalid-policy; and a policy with a non-empty owner
  and a set unlock time strictly in the future validates. The epoch is the value of an
  unset unlock time, so it can be "strictly in the future" only for a clock that reads
  a time before 1970; for a clock at or after the epoch, a non-empty owner and an unlock
  time strictly in the future are enough.
\<close>

theorem C5_validate:
  "(validate now p \<noteq> VoidValue \<longleftrightarrow> owner p = [] \<or> unlock_at p = 0 \<or> unlock_at p \<le> now)
   \<and> (validate now p \<noteq> VoidValue \<longrightarrow> (\<exists>m. validate now p = VoidError InvalidPolicy m))
   \<and> (owner p \<noteq> [] \<and> unlock_at p \<noteq> 0 \<and> now < unlock_at p \<longrightarrow> validate now p = VoidValue)
   \<and> (0 \<le> now \<and> owner p \<noteq> [] \<and> now < unlock_at p \<longrightarrow> validate now p = VoidValue)"
  by (auto simp: validate_def)

theorem C5_validate_witness:
  "validate 1793350000000000000
      (Policy_default\<lparr>unlock_at := 1793436400000000000, owner := ''u''\<rparr>) = VoidValue
   \<and> validate 1793350000000000000
      (Policy_default\<lparr>unlock_at := 1793346400000000000, owner := ''u''\<rparr>)
       = VoidError InvalidPolicy ''Unlock time must be in the future''
   \<and> validate 1793350000000000000 (Policy_default\<lparr>unlock_at := 1793436400000000000\<rparr>)
       = VoidError InvalidPolicy ''Owner cannot be empty''
   \<and> validate 1793350000000000000 (Policy_default\<lparr>owner := ''u''\<rparr>)
       = VoidError InvalidPolicy ''Unlock time must be set''"
  using
    C5_validate [of 1793350000000000000
                    "Policy_default\<lparr>unlock_at := 1793436400000000000, owner := ''u''\<rparr>"]
    C5_validate [of 1793350000000000000
                    "Policy_default\<lparr>unlock_at := 1793346400000000000, owner := ''u''\<rparr>"]
  by (simp add: validate_def Policy_default_def)

section \<open>Deserialisation\<close>

text \<open>No path through \<open>from_json\<close> returns a policy that \<open>validate\<close> has not accepted at
  the time of the call.\<close>

lemma from_json_always_validates:
  "from_json now j = Value p \<Longrightarrow> validate now p = VoidValue"
  by (auto simp: from_json_def Let_def split: if_splits sum.splits Result_void.splits)

lemma from_json_never_loads_past:
  "from_json now j = Value p \<Longrightarrow> now < unlock_at p \<and> owner p \<noteq> []"
  using from_json_always_validates [of now j p]
  by (auto simp: validate_def split: if_splits)

text \<open>
  Claim C1. Policy deserialisation is to have two modes, a strict one that applies the
  future-time rule again and one for the unlock path that skips it, so that every
  persisted, well-formed document with a non-empty owner whose unlock instant is past or
  present loads in the second mode. The code does otherwise: the library has one
  deserialiser, which always validates, and a well-formed document with a non-empty
  owner and the unlock instant 2020-01-01, read on 2026-10-30, is refused with
  invalid-policy.
\<close>

theorem C1_past_policy_is_refused:
  "from_json 1793350000000000000
     (JObject [(''unlock_at'', JString ''2020-01-01T00:00:00Z''),
               (''owner'', JString ''user@example.com''),
               (''label'', JString []),
               (''notes'', JString []),
               (''grace_seconds'', JUnsigned 0),
               (''algorithm'', JString ''AES-256-GCM''),
               (''kdf'', JString ''pbkdf2'')])
   = Error InvalidPolicy ''Unlock time must be in the future''"
  by code_simp

text \<open>The document of that evaluation is one the claim is about: its unlock time
  parses, to an instant before the time of loading, and its owner is not empty.\<close>

theorem C1_past_policy_is_refused_witness:
  "parse_rfc3339 ''2020-01-01T00:00:00Z'' = Value 1577836800000000000
   \<and> 1577836800000000000 \<le> (1793350000000000000 :: int)
   \<and> ''user@example.com'' \<noteq> []
   \<and> \<not> has_value (from_json 1793350000000000000
     (JObject [(''unlock_at'', JString ''2020-01-01T00:00:00Z''),
               (''owner'', JString ''user@example.com''),
               (''label'', JString []),
               (''notes'', JString []),
               (''grace_seconds'', JUnsigned 0),
               (''algorithm'', JString ''AES-256-GCM''),
               (''kdf'', JString ''pbkdf2'')]))"
proof -
  have "parse_rfc3339 ''2020-01-01T00:00:00Z'' = Value 1577836800000000000"
    by code_simp
  with C1_past_policy_is_refused show ?thesis by simp
qed

text \<open>
  Claim C10. When \<open>unlock_at\<close> is present and a string that \<open>parse_rfc3339\<close> rejects,
  \<open>from_json\<close> returns an error with the code invalid-policy, not invalid-time-format:
  the exception of \<open>set_unlock_time\<close> is caught and its text, which starts with the
  description of invalid-time-format, is put after \<^verbatim>\<open>JSON parsing error: \<close>.
\<close>

theorem C10_unparsable_unlock_at:
  assumes "contains j ''unlock_at''" and "at_key j ''unlock_at'' = JString s"
      and "\<not> has_value (parse_rfc3339 s)"
  shows "from_json now j = Error InvalidPolicy
           (''JSON parsing error: Invalid time format: '' @ getErrorMessage (parse_rfc3339 s))
         \<and> getErrorCode (from_json now j) = InvalidPolicy
         \<and> getErrorCode (from_json now j) \<noteq> InvalidTimeFormat"
proof -
  from assms(3) obtain c m where e: "parse_rfc3339 s = Error c m"
    by (cases "parse_rfc3339 s") auto
  then have "c = InvalidTimeFormat" "m \<noteq> []" using parse_rfc3339_error_code by blast+
  with e assms(1,2) show ?thesis
    by (simp add: from_json_def set_unlock_time_rfc3339_def set_unlock_time_def)
qed

theorem C10_unparsable_unlock_at_witness:
  "\<not> has_value (parse_rfc3339 ''2025-13-01T00:00:00Z'')
   \<and> from_json 1793350000000000000
        (JObject [(''unlock_at'', JString ''2025-13-01T00:00:00Z''), (''owner'', JString ''u'')])
      = Error InvalidPolicy
          ''JSON parsing error: Invalid time format: Invalid date/time values''"
  using C10_unparsable_unlock_at
    [of "JObject [(''unlock_at'', JString ''2025-13-01T00:00:00Z''), (''owner'', JString ''u'')]"
        "''2025-13-01T00:00:00Z''" 1793350000000000000]
  by (simp add: parse_month_13)

lemma parse_2027:
  "parse_rfc3339 ''2027-01-01T00:00:00Z'' = Value 1798761600000000000"
  by code_simp

text \<open>
  Claim C9. In a document that is otherwise valid (a parsable unlock time strictly in
  the future and not the epoch, a non-empty owner), an \<open>algorithm\<close> or \<open>kdf\<close> string
  that is not a known name does not make \<open>from_json\<close> fail: the invalid-argument result
  of the name lookup is dropped, and the returned policy has the default AES-256-GCM,
  respectively PBKDF2, in that field.
\<close>

theorem C9_unknown_names_keep_defaults:
  assumes "contains j ''unlock_at''" and "at_key j ''unlock_at'' = JString s"
      and "parse_rfc3339 s = Value t" and "t \<noteq> 0" and "now < t"
      and "contains j ''owner''" and "at_key j ''owner'' = JString ow" and "ow \<noteq> []"
      and "(contains j ''algorithm'' \<and> at_key j ''algorithm'' = JString a
              \<and> a \<noteq> ''AES-256-GCM'')
           \<or> (contains j ''kdf'' \<and> at_key j ''kdf'' = JString k
              \<and> k \<noteq> ''pbkdf2'' \<and> k \<noteq> ''argon2id'')"
  shows "\<exists>p. from_json now j = Value p \<and> unlock_at p = t \<and> owner p = ow
           \<and> (contains j ''algorithm'' \<and> at_key j ''algorithm'' = JString a
                \<and> a \<noteq> ''AES-256-GCM''
                \<longrightarrow> getErrorCode (crypto_algorithm_from_string a) = InvalidArgument
                    \<and> algorithm p = AES_256_GCM)
           \<and> (contains j ''kdf'' \<and> at_key j ''kdf'' = JString k
                \<and> k \<noteq> ''pbkdf2'' \<and> k \<noteq> ''argon2id''
                \<longrightarrow> getErrorCode (kdf_from_string k) = InvalidArgument \<and> kdf p = PBKDF2)"
proof -
  have alg: "algorithm q = AES_256_GCM" for q by (cases "algorithm q") simp
  have fields:
    "unlock_at (read_kdf j (read_algorithm j (read_grace_seconds j
        (read_notes j (read_label j q))))) = unlock_at q
     \<and> owner (read_kdf j (read_algorithm j (read_grace_seconds j
        (read_notes j (read_label j q))))) = owner q" for q
    by (simp add: read_kdf_def read_algorithm_def read_grace_seconds_def read_notes_def
          read_label_def set_kdf_def set_algorithm_def set_grace_seconds_def set_notes_def
          set_label_def split: Result.splits)
  have kdf_kept: "kdf (read_kdf j q) = kdf q"
    if "contains j ''kdf''" "at_key j ''kdf'' = JString k" "k \<noteq> ''pbkdf2''" "k \<noteq> ''argon2id''"
    for q
    using that by (simp add: read_kdf_def kdf_from_string_def)
  have kdf_default:
    "kdf (read_algorithm j (read_grace_seconds j (read_notes j (read_label j
        (read_owner j q))))) = kdf q" for q
    by (simp add: read_owner_def read_algorithm_def read_grace_seconds_def read_notes_def
          read_label_def set_owner_def set_algorithm_def set_grace_seconds_def set_notes_def
          set_label_def split: Result.splits)
  define p1 where "p1 = Policy_default\<lparr>unlock_at := t\<rparr>"
  define p where "p = read_kdf j (read_algorithm j (read_grace_seconds j
                        (read_notes j (read_label j (read_owner j p1)))))"
  have o: "read_owner j p1 = p1\<lparr>owner := ow\<rparr>"
    using assms(6,7) by (simp add: read_owner_def set_owner_def)
  have u: "unlock_at p = t" and ow: "owner p = ow"
    unfolding p_def o using fields [of "p1\<lparr>owner := ow\<rparr>"] by (simp_all add: p1_def)
  have v: "validate now p = VoidValue"
    using u ow assms(4,5,8) by (simp add: validate_def)
  have fj: "from_json now j = Value p"
    using assms(1,2,3) v
    by (simp add: from_json_def set_unlock_time_rfc3339_def set_unlock_time_def p_def p1_def)
  have k: "kdf p = PBKDF2"
    if "contains j ''kdf''" "at_key j ''kdf'' = JString k" "k \<noteq> ''pbkdf2''" "k \<noteq> ''argon2id''"
    unfolding p_def using kdf_kept [OF that] kdf_default [of p1]
    by (simp add: p1_def Policy_default_def)
  show ?thesis
    using fj u ow alg k by (auto simp: crypto_algorithm_from_string_def kdf_from_string_def)
qed

theorem C9_unknown_names_keep_defaults_witness:
  "\<exists>p. from_json 1793350000000000000
          (JObject [(''unlock_at'', JString ''2027-01-01T00:00:00Z''), (''owner'', JString ''u''),
                    (''algorithm'', JString ''ROT13''), (''kdf'', JString ''scrypt'')])
        = Value p
      \<and> unlock_at p = 1798761600000000000 \<and> owner p = ''u''
      \<and> algorithm p = AES_256_GCM \<and> kdf p = PBKDF2"
  using C9_unknown_names_keep_defaults
    [of "JObject [(''unlock_at'', JString ''2027-01-01T00:00:00Z''), (''owner'', JString ''u''),
                  (''algorithm'', JString ''ROT13''), (''kdf'', JString ''scrypt'')]"
        "''2027-01-01T00:00:00Z''" 1798761600000000000 1793350000000000000 "''u''"
        "''ROT13''" "''scrypt''"]
  by (auto simp: parse_2027)

section \<open>Serialisation round trip\<close>

lemma ucast_grace: "(ucast (ucast (g :: 32 word) :: 64 word) :: 32 word) = g"
  by transfer simp

lemma algorithm_name_roundtrip:
  "crypto_algorithm_from_string (to_string_CryptoAlgorithm a) = Value a"
  by (cases a) (simp add: crypto_algorithm_from_string_def)

lemma kdf_name_roundtrip: "kdf_from_string (to_string_KDFType k) = Value k"
  by (cases k) (simp_all add: kdf_from_string_def)

lemma read_fields_to_json:
  "read_kdf (to_json p) (read_algorithm (to_json p) (read_grace_seconds (to_json p)
     (read_notes (to_json p) (read_label (to_json p) (read_owner (to_json p) q)))))
   = q\<lparr>owner := owner p, label := label p, notes := notes p, grace_seconds := grace_seconds p,
       algorithm := algorithm p, kdf := kdf p\<rparr>"
  by (simp add: to_json_def read_kdf_def read_algorithm_def read_grace_seconds_def
        read_notes_def read_label_def read_owner_def set_kdf_def set_algorithm_def set_grace_seconds_def
        set_notes_def set_label_def set_owner_def ucast_grace algorithm_name_roundtrip
        kdf_name_roundtrip)

text \<open>
  Claim C7 as stated fails: \<open>from_json\<close> validates the policy it has read, whose
  unlock time has lost its sub-second part. A policy that unlocks 0.5 s after the current
  instant passes \<open>validate\<close>, and its own serialisation, read back at the same instant,
  is refused, because the truncated unlock time is 0.2 s in the past.
\<close>

theorem C7_roundtrip_counterexample:
  "validate 1793350000200000000
      (Policy_default\<lparr>unlock_at := 1793350000700000000, owner := ''u''\<rparr>) = VoidValue
   \<and> from_json 1793350000200000000
        (to_json (Policy_default\<lparr>unlock_at := 1793350000700000000, owner := ''u''\<rparr>))
      = Error InvalidPolicy ''Unlock time must be in the future''"
  by code_simp

text \<open>
  Claim C7, amended. For a policy whose unlock time, truncated to the whole second, still
  passes \<open>validate\<close> at the instant of loading (and is not the second \<open>-1\<close>, which
  \<open>parse_rfc3339\<close> takes for an error value), \<open>from_json (to_json p)\<close> succeeds and
  returns \<open>p\<close> with owner, label, notes, grace seconds, algorithm and kdf unchanged and the
  unlock time truncated (towards zero), not rounded, to the second.
\<close>

theorem C7_roundtrip_when_still_future:
  assumes "in_int64 (unlock_at p)"
      and "to_time_t (unlock_at p) \<noteq> - 1"
      and "validate now (p\<lparr>unlock_at := to_time_t (unlock_at p) * 1000000000\<rparr>) = VoidValue"
  shows "from_json now (to_json p)
           = Value (p\<lparr>unlock_at := to_time_t (unlock_at p) * 1000000000\<rparr>)"
proof -
  define t' where "t' = to_time_t (unlock_at p) * 1000000000"
  have u: "contains (to_json p) ''unlock_at''"
     "at_key (to_json p) ''unlock_at'' = JString (format_rfc3339 (unlock_at p))"
    by (simp_all add: to_json_def unlock_time_rfc3339_def)
  have s: "set_unlock_time_rfc3339 (format_rfc3339 (unlock_at p)) Policy_default
             = Inr (Policy_default\<lparr>unlock_at := t'\<rparr>)"
    by (simp add: set_unlock_time_rfc3339_def set_unlock_time_def
          parse_format_roundtrip [OF assms(1,2)] t'_def)
  have e: "(Policy_default\<lparr>unlock_at := t'\<rparr>)\<lparr>owner := owner p, label := label p,
              notes := notes p, grace_seconds := grace_seconds p, algorithm := algorithm p,
              kdf := kdf p\<rparr>
           = p\<lparr>unlock_at := t'\<rparr>"
    by (simp add: Policy_default_def)
  show ?thesis
    unfolding from_json_def using u s assms(3)
    by (simp add: read_fields_to_json e t'_def [symmetric])
qed

theorem C7_roundtrip_when_still_future_witness:
  "from_json 1793350000000000000
     (to_json (Policy_default\<lparr>unlock_at := 1793436400123456789, owner := ''test_user'',
        label := ''Test Capsule'', notes := ''Test notes'', grace_seconds := 1800,
        kdf := Argon2id\<rparr>))
   = Value (Policy_default\<lparr>unlock_at := 1793436400000000000, owner := ''test_user'',
        label := ''Test Capsule'', notes := ''Test notes'', grace_seconds := 1800,
        kdf := Argon2id\<rparr>)"
  using C7_roundtrip_when_still_future
    [of "Policy_default\<lparr>unlock_at := 1793436400123456789, owner := ''test_user'',
           label := ''Test Capsule'', notes := ''Test notes'', grace_seconds := 1800,
           kdf := Argon2id\<rparr>" 1793350000000000000]
  by (simp add: Policy_default_def in_int64_def to_time_t_def validate_def)

section \<open>The mock cipher\<close>

lemma tag_loop_length:
  "length (fold (\<lambda>i t. t[i mod 16 := t ! (i mod 16) XOR key ! i]) xs t0) = length t0"
  by (induction xs arbitrary: t0) simp_all

lemma mock_tag_length: "length (mock_tag key) = 16"
  by (simp add: mock_tag_def tag_loop_length)

lemma tag_loop_nth:
  assumes "length t0 = 16" and "j < 16"
  shows "fold (\<lambda>i t. t[i mod 16 := t ! (i mod 16) XOR key ! i]) [0..<n] t0 ! j
           = t0 ! j XOR xor_fold (\<lambda>i. key ! i) n j"
proof (induction n)
  case 0
  show ?case by simp
next
  case (Suc n)
  have l: "length (fold (\<lambda>i t. t[i mod 16 := t ! (i mod 16) XOR key ! i]) [0..<n] t0) = 16"
    using assms(1) by (simp add: tag_loop_length)
  show ?case
    using Suc assms(2) l by (simp add: nth_list_update xor.assoc)
qed

lemma mock_tag_nth: "j < 16 \<Longrightarrow> mock_tag key ! j = xor_fold (\<lambda>i. key ! i) (length key) j"
  by (simp add: mock_tag_def tag_loop_nth)

lemma xor_fold_update:
  assumes "i0 < length key" and "n \<le> length key"
  shows "xor_fold (\<lambda>i. key[i0 := v] ! i) n j
           = xor_fold (\<lambda>i. key ! i) n j
               XOR (if i0 < n \<and> i0 mod 16 = j then key ! i0 XOR v else 0)"
  using assms(2)
proof (induction n)
  case 0
  show ?case by simp
next
  case (Suc n)
  then have IH: "xor_fold (\<lambda>i. key[i0 := v] ! i) n j
           = xor_fold (\<lambda>i. key ! i) n j
               XOR (if i0 < n \<and> i0 mod 16 = j then key ! i0 XOR v else 0)"
    by simp
  from Suc.prems have n: "n < length key" by simp
  show ?case
  proof (cases "n = i0")
    case True
    then show ?thesis using IH n by (simp add: xor.assoc xor.commute xor.left_commute)
  next
    case False
    then show ?thesis
      using IH n by (auto simp: xor.assoc xor.commute xor.left_commute less_Suc_eq)
  qed
qed

lemma xor_cancel_ne:
  fixes a v w :: byte
  assumes "v \<noteq> w"
  shows "a XOR (w XOR v) \<noteq> a"
proof
  assume "a XOR (w XOR v) = a"
  then have "a XOR (a XOR (w XOR v)) = a XOR a" by simp
  then have "w XOR v = 0" by (simp add: xor.assoc [symmetric])
  then have "(w XOR v) XOR v = v" by simp
  then have "w = v" by (simp add: xor.assoc)
  with assms show False by simp
qed

lemma mock_tag_key_changed:
  assumes "i0 < length key" and "v \<noteq> key ! i0"
  shows "mock_tag (key[i0 := v]) \<noteq> mock_tag key"
proof -
  have j: "i0 mod 16 < 16" by simp
  have "mock_tag (key[i0 := v]) ! (i0 mod 16)
          = mock_tag key ! (i0 mod 16) XOR (key ! i0 XOR v)"
    using assms(1) by (simp add: mock_tag_nth [OF j] xor_fold_update)
  with assms(2) have "mock_tag (key[i0 := v]) ! (i0 mod 16) \<noteq> mock_tag key ! (i0 mod 16)"
    by (simp add: xor_cancel_ne)
  then show ?thesis by auto
qed

lemma flip_bit_ne: "b < 8 \<Longrightarrow> flip_bit b (w::byte) \<noteq> w"
proof
  assume b: "b < 8" and e: "flip_bit b w = w"
  have "bit (flip_bit b w) b \<longleftrightarrow> \<not> bit w b" using b by (simp add: bit_simps)
  with e show False by simp
qed

lemma xor_keystream_involution:
  "xor_keystream (xor_keystream buf key ivec) key ivec = buf"
  by (rule nth_equalityI)
    (simp_all add: xor_keystream_def xor.assoc xor.commute xor.left_commute)

text \<open>
  Claim C2 as stated fails for the mock provider: its tag is computed from the key alone
  (the exclusive or of the key bytes, folded to sixteen bytes), so it authenticates
  neither the ciphertext nor the IV, and two keys with the same fold have the same tag.
  After encrypting the byte \<open>0x41\<close> under a zero key and a zero IV, a flipped ciphertext
  bit, a flipped IV bit and a different key each make \<open>decrypt\<close> return the wrong
  plaintext \<open>0x40\<close> instead of failing.
\<close>

theorem C2_undetected_flips_counterexample:
  "encrypt [0x41] (replicate 32 0) (replicate 12 0)
     = Inr \<lparr>ciphertext = [0x41], iv = [], tag = replicate 16 0\<rparr>
   \<and> decrypt \<lparr>ciphertext = [flip_bit 0 0x41], iv = [], tag = replicate 16 0\<rparr>
        (replicate 32 0) (replicate 12 0) = Inr [0x40]
   \<and> decrypt \<lparr>ciphertext = [0x41], iv = [], tag = replicate 16 0\<rparr>
        (replicate 32 0) ((replicate 12 0)[0 := flip_bit 0 0]) = Inr [0x40]
   \<and> decrypt \<lparr>ciphertext = [0x41], iv = [], tag = replicate 16 0\<rparr>
        ((replicate 32 0)[0 := 1, 16 := 1]) (replicate 12 0) = Inr [0x40]"
  by code_simp

text \<open>
  Claim C2, amended. For every plaintext, key and IV on which \<open>encrypt\<close> is defined:
  decrypting with the same key and IV returns the plaintext; flipping any single bit of
  the tag, or of the key, makes \<open>decrypt\<close> fail with a crypto error; so does any
  different key whose sixteen-byte fold differs from that of the encryption key. The
  ciphertext and the IV are not authenticated: with the right tag and key, any
  ciphertext and any IV decrypt, to the exclusive or of ciphertext, key and IV.
\<close>

theorem C2_tag_and_key_flips_detected:
  assumes "encrypt plaintext key ivec = Inr enc"
  shows "decrypt enc key ivec = Inr plaintext
    \<and> (\<forall>j<16. \<forall>b<8.
          decrypt (enc\<lparr>tag := (tag enc)[j := flip_bit b (tag enc ! j)]\<rparr>) key ivec
            = Inl (TCFSException CRYPTO_ERROR ''Authentication failed - wrong key''))
    \<and> (\<forall>j<length key. \<forall>b<8.
          decrypt enc (key[j := flip_bit b (key ! j)]) ivec
            = Inl (TCFSException CRYPTO_ERROR ''Authentication failed - wrong key''))
    \<and> (\<forall>key'. mock_tag key' \<noteq> mock_tag key \<longrightarrow>
          decrypt enc key' ivec
            = Inl (TCFSException CRYPTO_ERROR ''Authentication failed - wrong key''))
    \<and> (\<forall>ct'. ct' = [] \<or> (key \<noteq> [] \<and> ivec \<noteq> []) \<longrightarrow>
          decrypt (enc\<lparr>ciphertext := ct'\<rparr>) key ivec = Inr (xor_keystream ct' key ivec))
    \<and> (\<forall>iv'. plaintext = [] \<or> (key \<noteq> [] \<and> iv' \<noteq> []) \<longrightarrow>
          decrypt enc key iv' = Inr (xor_keystream (ciphertext enc) key iv'))"
proof -
  from assms have
    enc: "enc = \<lparr>ciphertext = xor_keystream plaintext key ivec, iv = [], tag = mock_tag key\<rparr>"
    and ok: "plaintext = [] \<or> (key \<noteq> [] \<and> ivec \<noteq> [])"
    by (auto simp: encrypt_def split: if_splits)
  have len: "length (xor_keystream buf key v) = length buf" for buf v
    by (simp add: xor_keystream_def)
  have 1: "decrypt enc key ivec = Inr plaintext"
    using ok len [of plaintext ivec] by (auto simp: enc decrypt_def xor_keystream_involution)
  have 2: "decrypt (enc\<lparr>tag := (tag enc)[j := flip_bit b (tag enc ! j)]\<rparr>) key ivec
            = Inl (TCFSException CRYPTO_ERROR ''Authentication failed - wrong key'')"
    if "j < 16" "b < 8" for j b
  proof -
    have "(mock_tag key)[j := flip_bit b (mock_tag key ! j)] ! j \<noteq> mock_tag key ! j"
      using that by (simp add: mock_tag_length flip_bit_ne)
    then have "(mock_tag key)[j := flip_bit b (mock_tag key ! j)] \<noteq> mock_tag key" by auto
    then show ?thesis by (simp add: enc decrypt_def)
  qed
  have 3: "decrypt enc (key[j := flip_bit b (key ! j)]) ivec
            = Inl (TCFSException CRYPTO_ERROR ''Authentication failed - wrong key'')"
    if "j < length key" "b < 8" for j b
  proof -
    have "mock_tag (key[j := flip_bit b (key ! j)]) \<noteq> mock_tag key"
      using that by (simp add: mock_tag_key_changed flip_bit_ne)
    then show ?thesis by (auto simp: enc decrypt_def)
  qed
  have 4: "decrypt enc key' ivec
            = Inl (TCFSException CRYPTO_ERROR ''Authentication failed - wrong key'')"
    if "mock_tag key' \<noteq> mock_tag key" for key'
    using that by (auto simp: enc decrypt_def)
  have 5: "decrypt (enc\<lparr>ciphertext := ct'\<rparr>) key ivec = Inr (xor_keystream ct' key ivec)"
    if "ct' = [] \<or> (key \<noteq> [] \<and> ivec \<noteq> [])" for ct'
    using that by (auto simp: enc decrypt_def)
  have 6: "decrypt enc key iv' = Inr (xor_keystream (ciphertext enc) key iv')"
    if "plaintext = [] \<or> (key \<noteq> [] \<and> iv' \<noteq> [])" for iv'
    using that len [of plaintext ivec] by (auto simp: enc decrypt_def)
  from 1 2 3 4 5 6 show ?thesis by blast
qed

theorem C2_tag_and_key_flips_detected_witness:
  "encrypt [0x48, 0x65, 0x6c, 0x6c, 0x6f] (map of_nat [0..<32]) (replicate 12 7)
     = Inr \<lparr>ciphertext = [0x4f, 0x63, 0x69, 0x68, 0x6c], iv = [], tag = replicate 16 16\<rparr>
   \<and> decrypt \<lparr>ciphertext = [0x4f, 0x63, 0x69, 0x68, 0x6c], iv = [], tag = replicate 16 16\<rparr>
        (map of_nat [0..<32]) (replicate 12 7) = Inr [0x48, 0x65, 0x6c, 0x6c, 0x6f]
   \<and> decrypt \<lparr>ciphertext = [0x4f, 0x63, 0x69, 0x68, 0x6c], iv = [],
               tag = (replicate 16 16)[3 := 0x11]\<rparr>
        (map of_nat [0..<32]) (replicate 12 7)
       = Inl (TCFSException CRYPTO_ERROR ''Authentication failed - wrong key'')"
proof -
  define enc where
    "enc = \<lparr>ciphertext = [0x4f, 0x63, 0x69, 0x68, 0x6c :: byte], iv = [], tag = replicate 16 16\<rparr>"
  have e: "encrypt [0x48, 0x65, 0x6c, 0x6c, 0x6f] (map of_nat [0..<32]) (replicate 12 7)
             = Inr enc"
    unfolding enc_def by code_simp
  have f: "flip_bit 0 (16 :: byte) = 0x11" by code_simp
  from C2_tag_and_key_flips_detected [OF e] have
    a: "decrypt enc (map of_nat [0..<32]) (replicate 12 7) = Inr [0x48, 0x65, 0x6c, 0x6c, 0x6f]"
    and b: "\<forall>j<16. \<forall>b<8.
          decrypt (enc\<lparr>tag := (tag enc)[j := flip_bit b (tag enc ! j)]\<rparr>)
            (map of_nat [0..<32]) (replicate 12 7)
            = Inl (TCFSException CRYPTO_ERROR ''Authentication failed - wrong key'')"
    by blast+
  from a b [rule_format, of 3 0] e f show ?thesis by (simp add: enc_def)
qed

section \<open>The hexadecimal and mock base64 codecs\<close>

lemma of_char_hex_char:
  "n < 16 \<Longrightarrow> (of_char (hex_char n) :: nat) = (if n < 10 then 48 + n else 87 + n)"
  by (simp add: hex_char_def)

lemma hex_char_facts:
  assumes "n < 16"
  shows "is_xdigit (hex_char n)" and "xdigit_val (hex_char n) = n"
    and "\<not> isspace (hex_char n)" and "hex_char n \<noteq> CHR ''-''" and "hex_char n \<noteq> CHR ''+''"
    and "hex_char n \<noteq> CHR ''x''" and "hex_char n \<noteq> CHR ''X''"
proof -
  note c = of_char_hex_char [OF assms]
  show "is_xdigit (hex_char n)" using assms by (simp add: is_xdigit_def is_digit_def c)
  show "xdigit_val (hex_char n) = n" using assms by (simp add: xdigit_val_def is_digit_def c)
  show "\<not> isspace (hex_char n)" using assms by (simp add: isspace_def c)
  have ne: "hex_char n \<noteq> ch"
    if "(of_char ch :: nat) \<noteq> (if n < 10 then 48 + n else 87 + n)" for ch
    using that c by auto
  show "hex_char n \<noteq> CHR ''-''" using assms by (intro ne) simp
  show "hex_char n \<noteq> CHR ''+''" using assms by (intro ne) simp
  show "hex_char n \<noteq> CHR ''x''" using assms by (intro ne) simp
  show "hex_char n \<noteq> CHR ''X''" using assms by (intro ne) simp
qed

lemma stoul16_hex_pair:
  assumes "a < 16" and "b < 16"
  shows "stoul16 [hex_char a, hex_char b] = Inr (16 * int a + int b)"
  using hex_char_facts [OF assms(1)] hex_char_facts [OF assms(2)] assms
  by (simp add: stoul16_def hexadecimal_def Let_def)

lemma byte_of_nibbles:
  "(of_int (16 * int (unat (w::byte) div 16) + int (unat w mod 16)) :: byte) = w"
proof -
  have "16 * (unat w div 16) + unat w mod 16 = unat w" by simp
  then have "int (16 * (unat w div 16) + unat w mod 16) = int (unat w)" by (rule arg_cong)
  then have "16 * int (unat w div 16) + int (unat w mod 16) = int (unat w)"
    by (simp only: of_nat_add of_nat_mult of_nat_numeral)
  then show ?thesis by simp
qed

lemma byte_of_nibbles_word:
  "16 * word_of_nat (unat (w::byte) div 16) + word_of_nat (unat w mod 16) = w"
  using byte_of_nibbles [of w] by simp

lemma unat_byte_nibbles: "unat (w::byte) div 16 < 16" "unat w mod 16 < 16"
proof -
  have "unat w < 256" using unsigned_less [of w, where 'a = nat] by simp
  then show "unat w div 16 < 16" by simp
  show "unat w mod 16 < 16" by simp
qed

lemma fromHex_toHex: "fromHex (toHex data) = Inr data"
proof (induction data)
  case Nil
  show ?case by (simp add: toHex_def)
next
  case (Cons w ws)
  have t: "toHex (w # ws) = hex_char (unat w div 16) # hex_char (unat w mod 16) # toHex ws"
    by (simp add: toHex_def)
  show ?case
    unfolding t using Cons
    by (simp add: stoul16_hex_pair unat_byte_nibbles byte_of_nibbles_word)
qed

lemma toHex_empty: "toHex [] = []"
  by (simp add: toHex_def)

lemma fromBase64_toBase64_nonempty:
  "data \<noteq> [] \<Longrightarrow> fromBase64 (toBase64 data) = Inr data"
  by (simp add: toBase64_def fromBase64_def fromHex_toHex)

text \<open>
  Claim C3. Every byte sequence, the empty one included, is to come back from
  \<open>fromHex (toHex b)\<close> and from \<open>fromBase64 (toBase64 b)\<close>; the empty sequence is to
  be encoded to the empty string and the empty string decoded to the empty sequence.
  The hexadecimal round trip holds for every byte sequence (\<open>fromHex_toHex\<close>) and
  the base64 one for every non-empty sequence (\<open>fromBase64_toBase64_nonempty\<close>). The
  empty sequence is encoded to the empty string, but \<open>fromBase64\<close> does not decode the
  empty string: it is shorter than the suffix that the decoder demands, and the call
  throws.
\<close>

theorem C3_empty_base64_not_decoded:
  "toBase64 [] = []
   \<and> fromBase64 (toBase64 [])
       = Inl (TCFSException InvalidArgument ''Invalid mock base64 format'')"
  by (simp add: toBase64_def fromBase64_def)

theorem C3_empty_base64_not_decoded_witness:
  "fromHex (toHex []) = Inr []
   \<and> fromBase64 (toBase64 [0x01, 0x23]) = Inr [0x01, 0x23]
   \<and> fromBase64 (toBase64 []) \<noteq> Inr []"
proof -
  from C3_empty_base64_not_decoded
  have "fromBase64 (toBase64 [])
          = Inl (TCFSException InvalidArgument ''Invalid mock base64 format'')"
    by (rule conjunct2)
  then have "fromBase64 (toBase64 []) \<noteq> Inr []" by (simp only: sum.distinct not_False_eq_True)
  moreover have "fromHex (toHex []) = Inr []" by (simp add: toHex_def)
  moreover have "fromBase64 (toBase64 [0x01, 0x23]) = Inr [0x01, 0x23]"
    by (rule fromBase64_toBase64_nonempty) simp
  ultimately show ?thesis by (intro conjI)
qed

end
